theory Spec2Isabelle
  imports Main "HOL-Library.Word"
begin

unbundle bit_operations_syntax

section \<open>ArduinoMusicLab: data model\<close>

text \<open>
  The sketch runs on an Arduino Uno (AVR): \<open>byte\<close> and \<open>uint8_t\<close> are 8-bit unsigned,
  \<open>int\<close> is 16-bit two's complement and \<open>unsigned long\<close> is 32-bit unsigned.  Bytes are
  \<open>8 word\<close>; values of type \<open>int\<close> are HOL integers, narrowed by \<open>int16\<close> wherever the
  source stores a result that may leave the 16-bit range; \<open>unsigned long\<close> arithmetic is
  written with \<open>mod 2 ^ 32\<close>.
\<close>

type_synonym byte = "8 word"

definition int16 :: "int \<Rightarrow> int" where
  "int16 x = (x + 32768) mod 65536 - 32768"

definition ulong :: "int \<Rightarrow> int" where
  "ulong x = x mod 2 ^ 32"

text \<open>
  The note macros of the source (\<open>#define c 0x80\<close> ... \<open>#define C 0x8C\<close>).  They are
  textual macros, hence abbreviations; the one-letter names are prefixed since they would
  capture the variables of every later statement.
\<close>

abbreviation (input) note_c :: byte where "note_c \<equiv> 0x80"
abbreviation (input) note_d :: byte where "note_d \<equiv> 0x82"
abbreviation (input) note_e :: byte where "note_e \<equiv> 0x84"
abbreviation (input) note_f :: byte where "note_f \<equiv> 0x85"
abbreviation (input) note_g :: byte where "note_g \<equiv> 0x87"
abbreviation (input) note_a :: byte where "note_a \<equiv> 0x89"
abbreviation (input) note_b :: byte where "note_b \<equiv> 0x8B"
abbreviation (input) note_C :: byte where "note_C \<equiv> 0x8C"

abbreviation (input) PLAY_DEBUG_MODE :: bool where "PLAY_DEBUG_MODE \<equiv> False"
abbreviation (input) SONG_COUNT :: int where "SONG_COUNT \<equiv> 12"
abbreviation (input) LCD_COL_COUNT :: nat where "LCD_COL_COUNT \<equiv> 16"
abbreviation (input) SERIAL_BAUD_RATE :: nat where "SERIAL_BAUD_RATE \<equiv> 57600"
abbreviation (input) PIN_ROTARY_CLK :: nat where "PIN_ROTARY_CLK \<equiv> 2"
abbreviation (input) PIN_ROTARY_DAT :: nat where "PIN_ROTARY_DAT \<equiv> 3"
abbreviation (input) PIN_ROTARY_SW :: nat where "PIN_ROTARY_SW \<equiv> 4"
abbreviation (input) PIN_ROTARY_5V :: nat where "PIN_ROTARY_5V \<equiv> 5"
abbreviation (input) PIN_ROTARY_GND :: nat where "PIN_ROTARY_GND \<equiv> 6"

definition slaveAddr :: byte where
  "slaveAddr = 0"

definition rotaryMax :: int where
  "rotaryMax = SONG_COUNT - 1"

subsection \<open>The song catalog (PROGMEM)\<close>

definition songTitle0 :: string where "songTitle0 = ''Scale''"
definition songTitle1 :: string where "songTitle1 = ''Chords''"
definition songTitle2 :: string where "songTitle2 = ''Do Re Mi''"
definition songTitle3 :: string where "songTitle3 = ''Grieg Morning''"
definition songTitle4 :: string where "songTitle4 = ''Old MacDonald''"
definition songTitle5 :: string where "songTitle5 = ''Itsy Bitsy Spidr''"
definition songTitle6 :: string where "songTitle6 = ''Ode to Joy''"
definition songTitle7 :: string where "songTitle7 = ''Twinkle Star''"
definition songTitle8 :: string where "songTitle8 = ''Water Music''"
definition songTitle9 :: string where "songTitle9 = ''Vivaldi Spring''"
definition songTitle10 :: string where "songTitle10 = ''Oh Susanna''"
definition songTitle11 :: string where "songTitle11 = ''Over the River''"

definition songData0 :: "byte list" where
  "songData0 = [note_c, 4, note_d, 4, note_e, 4, note_f, 4, note_g, 4, note_a, 4, note_b, 4,
     note_C, 4, 0]"

definition songData1 :: "byte list" where
  "songData1 = [note_c, note_e, note_g, note_C, 4, note_c, note_f, note_a, note_C, 4, note_c,
     note_e, note_g, note_C, 4, note_d, note_f, note_g, note_b, 4, note_c, note_e, note_g,
     note_C, 4, 0]"

definition songData2 :: "byte list" where
  "songData2 = [note_c, 6, note_d, 2, note_e, 6, note_c, 2, note_e, 4, note_c, 4, note_e, 8,
     note_d, 6, note_e, 2, note_f, 2, note_f, 2, note_e, 2, note_d, 2, note_f, 16, note_e, 6,
     note_f, 2, note_g, 6, note_e, 2, note_g, 4, note_e, 4, note_g, 8, note_f, 6, note_g, 2,
     note_a, 2, note_a, 2, note_g, 2, note_f, 2, note_a, 16, 0]"

definition songData3 :: "byte list" where
  "songData3 = [note_g, 4, note_e, 4, note_d, 4, note_c, 4, note_d, 4, note_e, 4, note_g, 4,
     note_e, 4, note_d, 4, note_c, 4, note_d, 2, note_e, 2, note_d, 2, note_e, 2, note_g, 4,
     note_e, 4, note_g, 4, note_a, 4, note_e, 4, note_a, 4, note_g, 4, note_e, 4, note_d, 4,
     note_c, 12, note_g, 4, note_e, 4, note_d, 4, note_c, 4, note_d, 4, note_e, 4, note_g, 4,
     note_e, 4, note_d, 4, note_c, 4, note_d, 2, note_e, 2, note_d, 2, note_e, 2, note_g, 4,
     note_e, 4, note_g, 4, note_a, 4, note_e, 4, note_a, 4, note_b, 4, note_g, 4, note_b, 4,
     note_C, 0]"

definition songData4 :: "byte list" where
  "songData4 = [note_C, 4, note_C, 4, note_C, 4, note_g, 4, note_a, 4, note_a, 4, note_g, 8,
     note_e, 4, note_e, 4, note_d, 4, note_d, 4, note_c, 12, note_g, 4, note_C, 4, note_C, 4,
     note_C, 4, note_g, 4, note_a, 4, note_a, 4, note_g, 8, note_e, 4, note_e, 4, note_d, 4,
     note_d, 4, note_c, 12, note_g, 2, note_g, 2, note_C, 4, note_C, 4, note_C, 4, note_g, 2,
     note_g, 2, note_C, 4, note_C, 4, note_C, 8, note_C, 2, note_C, 2, note_C, 4, note_C, 2,
     note_C, 2, note_C, 4, note_C, 2, note_C, 2, note_C, 2, note_C, 2, note_C, 4, note_C, 4,
     note_C, 4, note_C, 4, note_C, 4, note_g, 4, note_a, 4, note_a, 4, note_g, 8, note_e, 4,
     note_e, 4, note_d, 4, note_d, 4, note_c, 12, 0]"

definition songData5 :: "byte list" where
  "songData5 = [note_g, 2, note_c, 3, note_c, 1, note_c, 3, note_d, 1, note_e, 4, note_e, 3,
     note_e, 1, note_d, 3, note_c, 1, note_d, 3, note_e, 1, note_c, 8, note_e, 4, note_e, 3,
     note_f, 1, note_g, 4, note_g, 4, note_f, 3, note_e, 1, note_f, 3, note_g, 1, note_e, 8,
     note_c, 4, note_c, 3, note_d, 1, note_e, 4, note_e, 4, note_d, 3, note_c, 1, note_d, 3,
     note_e, 1, note_c, 4, note_g, 3, note_g, 1, note_c, 3, note_c, 1, note_c, 3, note_d, 1,
     note_e, 4, note_e, 3, note_e, 1, note_d, 3, note_c, 1, note_d, 3, note_e, 1, note_c, 8,
     0]"

definition songData6 :: "byte list" where
  "songData6 = [note_e, 4, note_e, 4, note_f, 4, note_g, 4, note_g, 4, note_f, 4, note_e, 4,
     note_d, 4, note_c, 4, note_c, 4, note_d, 4, note_e, 4, note_e, 6, note_d, 2, note_d, 8,
     note_e, 4, note_e, 4, note_f, 4, note_g, 4, note_g, 4, note_f, 4, note_e, 4, note_d, 4,
     note_c, 4, note_c, 4, note_d, 4, note_e, 4, note_d, 6, note_c, 2, note_c, 8, note_d, 4,
     note_d, 4, note_e, 4, note_c, 4, note_d, 4, note_e, 2, note_f, 2, note_e, 4, note_c, 4,
     note_d, 4, note_e, 2, note_f, 2, note_e, 4, note_d, 4, note_c, 4, note_d, 4, note_g, 8,
     note_e, 4, note_e, 4, note_f, 4, note_g, 4, note_g, 4, note_f, 4, note_e, 4, note_d, 4,
     note_c, 4, note_c, 4, note_d, 4, note_e, 4, note_d, 6, note_c, 2, note_c, 8, 0]"

definition songData7 :: "byte list" where
  "songData7 = [note_c, 4, note_c, 4, note_g, 4, note_g, 4, note_a, 4, note_a, 4, note_g, 8,
     note_f, 4, note_f, 4, note_e, 4, note_e, 4, note_d, 4, note_d, 4, note_c, 8, note_g, 4,
     note_g, 4, note_f, 4, note_f, 4, note_e, 4, note_e, 4, note_d, 8, note_g, 4, note_g, 4,
     note_f, 4, note_f, 4, note_e, 4, note_e, 4, note_d, 8, note_c, 4, note_c, 4, note_g, 4,
     note_g, 4, note_a, 4, note_a, 4, note_g, 8, note_f, 4, note_f, 4, note_e, 4, note_e, 4,
     note_d, 4, note_d, 4, note_c, 8, 0]"

definition songData8 :: "byte list" where
  "songData8 = [8, note_c, 8, note_d, 8, note_e, 4, note_c, 8, note_d, 4, note_e, 4, note_c,
     4, note_d, 4, note_g, 8, note_d, 4, note_e, 4, note_d, 2, note_c, 2, note_d, 4, note_g,
     8, note_d, 4, note_e, 4, note_d, 2, note_c, 2, note_d, 12, note_e, note_g, 4, note_e,
     note_g, 4, note_e, note_g, 4, note_e, note_g, 4, note_f, 2, note_e, 2, note_f, 4,
     note_d, note_f, 4, note_d, note_f, 4, note_d, note_f, 4, note_d, note_f, 4, note_e, 2,
     note_d, 2, note_e, 4, note_e, note_g, 4, note_e, note_g, 4, note_e, note_g, 4, note_e,
     note_g, 4, note_f, 2, note_e, 2, note_f, 4, note_d, note_f, 4, note_d, note_f, 4,
     note_d, note_f, 4, note_f, 12, note_g, 4, note_e, note_c, 4, note_d, 4, note_e, note_c,
     4, note_f, 4, note_d, 12, note_c, 4, note_c, 12, note_e, note_g, 4, note_e, note_g, 4,
     note_e, note_g, 4, note_f, note_d, 4, note_g, 2, note_f, 2, note_e, note_c, 4, note_g,
     note_e, 4, note_f, note_d, 4, note_e, note_c, 4, note_e, note_c, 4, note_d, 2, note_c,
     2, note_d, 4, note_e, note_g, 4, note_e, note_g, 4, note_e, note_g, 4, note_f, note_d,
     4, note_g, 2, note_f, 2, note_e, note_c, 4, note_g, note_e, 4, note_f, note_d, 4,
     note_e, note_c, 4, note_e, note_c, 4, note_d, 2, note_c, 2, note_d, 4, note_e, note_g,
     4, note_e, note_g, 4, note_e, note_g, 4, note_e, note_g, 4, note_f, 2, note_e, 2,
     note_f, 4, note_d, note_f, 4, note_d, note_f, 4, note_d, note_f, 4, note_d, note_f, 12,
     note_g, 4, note_e, note_c, 4, note_d, 4, note_e, note_c, 4, note_f, 4, note_d, 12,
     note_c, 4, note_c, 0]"

definition songData9 :: "byte list" where
  "songData9 = [12, note_c, 4, note_c, note_e, 4, note_c, note_e, 4, note_c, note_e, 4,
     note_d, 2, note_c, 2, note_e, note_g, 12, note_g, 2, note_f, 2, note_c, note_e, 4,
     note_c, note_e, 4, note_c, note_e, 4, note_d, 2, note_c, 2, note_e, note_g, 12, note_g,
     2, note_f, 2, note_c, note_e, 4, note_f, 2, note_g, 2, note_d, note_f, 4, note_c,
     note_e, 4, note_d, 12, note_c, 4, note_c, note_e, 4, note_c, note_e, 4, note_c, note_e,
     4, note_d, 2, note_c, 2, note_e, note_g, 12, note_g, 2, note_f, 2, note_c, note_e, 4,
     note_c, note_e, 4, note_c, note_e, 4, note_d, 2, note_c, 2, note_e, note_g, 12, note_g,
     2, note_f, 2, note_c, note_e, 4, note_f, 2, note_g, 2, note_d, note_f, 4, note_c,
     note_e, 4, note_d, 12, note_c, 4, note_e, note_g, 4, note_f, 2, note_e, 2, note_f, 4,
     note_g, 4, note_f, note_a, 4, note_e, note_g, 8, note_c, 4, note_e, note_g, 4, note_f,
     2, note_e, 2, note_f, 4, note_g, 4, note_f, note_a, 4, note_e, note_g, 8, note_c, 4,
     note_f, note_a, 4, note_e, note_g, 8, note_f, 4, note_e, 4, note_d, 2, note_c, 2,
     note_d, 8, note_c, 12, note_c, 4, note_e, note_g, 4, note_f, 2, note_e, 2, note_f, 4,
     note_g, 4, note_f, note_a, 4, note_e, note_g, 8, note_c, 4, note_e, note_g, 4, note_f,
     2, note_e, 2, note_f, 4, note_g, 4, note_f, note_a, 4, note_e, note_g, 8, note_c, 4,
     note_f, note_a, 4, note_e, note_g, 8, note_f, 4, note_e, 4, note_d, 2, note_c, 2,
     note_d, 8, note_c, 0]"

definition songData10 :: "byte list" where
  "songData10 = [6, note_c, 1, note_d, 1, note_e, 2, note_g, 2, note_g, 2, note_a, 2, note_g,
     2, note_e, 2, note_c, 3, note_d, 1, note_e, 2, note_e, 2, note_d, 2, note_c, 2, note_d,
     6, note_c, 1, note_d, 1, note_e, 2, note_g, 2, note_g, 3, note_a, 1, note_g, 2, note_e,
     2, note_c, 3, note_d, 1, note_e, 2, note_e, 2, note_d, 2, note_d, 2, note_c, 6, note_c,
     1, note_d, 1, note_e, 2, note_g, 2, note_g, 3, note_a, 1, note_g, 2, note_e, 2, note_c,
     3, note_d, 1, note_e, 2, note_e, 2, note_d, 2, note_c, 2, note_d, 6, note_c, 1, note_d,
     1, note_e, 2, note_g, 2, note_g, 2, note_a, 2, note_g, 2, note_e, 2, note_c, 3, note_d,
     1, note_e, 2, note_e, 2, note_d, 2, note_d, 2, note_c, 8, note_f, 4, note_f, 4, note_a,
     note_c, 2, note_a, 4, note_a, 2, note_g, 2, note_g, 2, note_e, 2, note_c, 2, note_d, 6,
     note_c, 1, note_d, 1, note_e, 2, note_g, 2, note_g, 2, note_a, 2, note_g, 2, note_e, 2,
     note_c, 3, note_d, 1, note_e, 2, note_e, 2, note_d, 2, note_d, 2, note_c, 0]"

definition songData11 :: "byte list" where
  "songData11 = [note_e, note_g, 2, note_e, note_g, 2, note_e, note_g, 2, note_e, note_g, 2,
     note_c, note_e, 2, note_d, note_f, 2, note_e, note_g, 4, note_e, note_g, 2, note_e,
     note_g, 4, note_e, note_g, 2, note_f, note_C, 4, note_f, note_C, 2, note_f, note_b, 4,
     note_f, note_a, 2, note_e, note_g, 10, note_e, note_g, 2, note_f, 4, note_f, 2, note_f,
     4, note_f, 2, note_c, note_e, 4, note_c, note_e, 2, note_c, note_e, 4, note_c, note_e,
     2, note_c, note_d, 4, note_c, note_d, 2, note_c, note_d, 4, note_c, note_e, 2, note_d,
     6, note_d, note_g, 6, note_e, note_g, 2, note_e, note_g, 2, note_e, note_g, 2, note_e,
     note_g, 2, note_c, note_e, 2, note_d, note_f, 2, note_e, note_g, 4, note_e, note_g, 2,
     note_e, note_g, 4, note_e, note_g, 2, note_f, note_C, 2, note_f, note_C, 2, note_f,
     note_C, 2, note_f, note_b, 4, note_f, note_a, 2, note_e, note_g, 10, note_e, note_g, 2,
     note_c, note_C, 4, note_c, note_C, 2, note_c, note_b, 4, note_c, note_a, 2, note_c,
     note_g, 4, note_c, note_e, 2, note_c, 4, note_d, 2, note_c, note_e, 4, note_f, 2,
     note_e, 4, note_d, 2, note_c, 0]"

definition songTitles :: "string list" where
  "songTitles = [songTitle0, songTitle1, songTitle2, songTitle3, songTitle4, songTitle5,
     songTitle6, songTitle7, songTitle8, songTitle9, songTitle10, songTitle11]"

definition songData :: "byte list list" where
  "songData = [songData0, songData1, songData2, songData3, songData4, songData5,
     songData6, songData7, songData8, songData9, songData10, songData11]"

definition songTempos :: "int list" where
  "songTempos = [150, 120, 150, 150, 200, 120, 160, 150, 200, 180, 120, 150]"

text \<open>
  \<open>pgm_read_word(&table[songIndex])\<close>: inside the table it is the entry; outside, the
  read leaves the array and its value is not determined by the program (\<open>None\<close>).
\<close>

definition pgm_read_word :: "'a list \<Rightarrow> int \<Rightarrow> 'a option" where
  "pgm_read_word table i =
     (if 0 \<le> i \<and> i < int (length table) then Some (table ! nat i) else None)"

subsection \<open>Collaborators and device state\<close>

text \<open>
  The calls the sketch makes to the Arduino core, the serial port and the LCD library are
  recorded, in order, in a trace.  What the outside world does to the sketch is an input:
  each call of \<open>btnRot.tick()\<close> consumes the next button event (the OneButton library
  calls at most one attached callback per tick), and each call of \<open>delay\<close> consumes the
  next batch of encoder interrupts, every interrupt with the value of \<open>PIND\<close> it reads.
  An exhausted input means that nothing happens any more.  Interrupts are served where the
  sketch waits; the handlers act on the state alone, so an interrupt served at another
  point of the code is covered by the facts proved of \<open>PinA\<close> and \<open>PinB\<close> in any state.
\<close>

datatype pin_mode = INPUT_PULLUP | OUTPUT

datatype io =
    Delay nat
  | PinMode nat pin_mode
  | DigitalWrite nat bool
  | AttachInterrupt nat
  | SerialBegin nat
  | SerialPrint string
  | SerialPrintHex byte
  | SerialPrintln string
  | LcdBegin
  | LcdBacklight
  | LcdClear
  | LcdSetCursor nat nat
  | LcdPrint string
  | LcdWrite char

datatype btn_event = NoEvent | Click | LongPressStart

datatype irq = IrqPinA byte | IrqPinB byte

record state =
  songPlaying :: byte
  tempo :: int
  songIndex :: int
  rotaryCount :: int
  rotaryChanged :: byte
  rotaryDisabled :: byte
  aFlag :: byte
  bFlag :: byte
  reading :: byte
  buttons :: "btn_event list"
  irqs :: "irq list list"
  trace :: "io list"

definition emit :: "io list \<Rightarrow> state \<Rightarrow> state" where
  "emit evs st = st\<lparr>trace := trace st @ evs\<rparr>"

section \<open>Rotary encoder\<close>

definition rotaryUp :: "state \<Rightarrow> state" where
  "rotaryUp st =
     (let st1 = st\<lparr>rotaryCount := int16 (rotaryCount st + 1)\<rparr>;
          st2 = (if rotaryCount st1 > rotaryMax then st1\<lparr>rotaryCount := rotaryMax\<rparr> else st1)
      in st2\<lparr>rotaryChanged := 1\<rparr>)"

definition rotaryDown :: "state \<Rightarrow> state" where
  "rotaryDown st =
     (let st1 = st\<lparr>rotaryCount := int16 (rotaryCount st - 1)\<rparr>;
          st2 = (if rotaryCount st1 < 0 then st1\<lparr>rotaryCount := 0\<rparr> else st1)
      in st2\<lparr>rotaryChanged := 1\<rparr>)"

definition PinA :: "byte \<Rightarrow> state \<Rightarrow> state" where
  "PinA PIND st =
     (if rotaryDisabled st \<noteq> 0 then st
      else
        let st1 = st\<lparr>reading := PIND AND 0xC\<rparr> in
        if reading st1 = 0x0C \<and> aFlag st1 \<noteq> 0 then (rotaryUp st1)\<lparr>bFlag := 0, aFlag := 0\<rparr>
        else if reading st1 = 0x04 then st1\<lparr>bFlag := 1\<rparr>
        else st1)"

definition PinB :: "byte \<Rightarrow> state \<Rightarrow> state" where
  "PinB PIND st =
     (if rotaryDisabled st \<noteq> 0 then st
      else
        let st1 = st\<lparr>reading := PIND AND 0xC\<rparr> in
        if reading st1 = 0x0C \<and> bFlag st1 \<noteq> 0 then (rotaryDown st1)\<lparr>bFlag := 0, aFlag := 0\<rparr>
        else if reading st1 = 0x08 then st1\<lparr>aFlag := 1\<rparr>
        else st1)"

definition rotaryClick :: "state \<Rightarrow> state" where
  "rotaryClick st = st\<lparr>songPlaying := (if songPlaying st = 0 then 1 else 0)\<rparr>"

definition rotaryLongPress :: "state \<Rightarrow> state" where
  "rotaryLongPress st = st"

text \<open>\<open>btnRot.tick()\<close>: the library's debouncing decides which callback, if any, runs.\<close>

definition btnRot_tick :: "state \<Rightarrow> state" where
  "btnRot_tick st =
     (case buttons st of
        [] \<Rightarrow> st
      | ev # rest \<Rightarrow>
          (case ev of
             NoEvent \<Rightarrow> st\<lparr>buttons := rest\<rparr>
           | Click \<Rightarrow> rotaryClick (st\<lparr>buttons := rest\<rparr>)
           | LongPressStart \<Rightarrow> rotaryLongPress (st\<lparr>buttons := rest\<rparr>)))"

fun isr :: "irq \<Rightarrow> state \<Rightarrow> state" where
  "isr (IrqPinA PIND) st = PinA PIND st"
| "isr (IrqPinB PIND) st = PinB PIND st"

text \<open>\<open>delay(ms)\<close>: the interrupts of the next batch are served while the sketch waits.\<close>

definition delay :: "nat \<Rightarrow> state \<Rightarrow> state" where
  "delay ms st =
     (case irqs st of
        [] \<Rightarrow> emit [Delay ms] st
      | batch # rest \<Rightarrow> emit [Delay ms] (fold isr batch (st\<lparr>irqs := rest\<rparr>)))"

section \<open>Display\<close>

definition printSelectSong :: "state \<Rightarrow> state" where
  "printSelectSong st = emit [LcdSetCursor 0 0, LcdPrint ''Select a Song   ''] st"

definition printSongPlaying :: "state \<Rightarrow> state" where
  "printSongPlaying st = emit [LcdSetCursor 0 0, LcdPrint ''--- Playing  ---''] st"

text \<open>
  \<open>lcdPrintProgStr\<close>: \<open>n\<close> is a byte, so it is the string length modulo 256; the first
  loop writes the first \<open>n\<close> characters, the second pads with blanks up to column 16.
\<close>

definition lcdPrintProgStr :: "string \<Rightarrow> state \<Rightarrow> state" where
  "lcdPrintProgStr str st =
     (let n = length str mod 256
      in emit (map LcdWrite (take n str) @ replicate (LCD_COL_COUNT - n) (LcdWrite CHR '' '')) st)"

definition printSelectedSong :: "state \<Rightarrow> state option" where
  "printSelectedSong st =
     (let st1 = st\<lparr>songIndex := rotaryCount st\<rparr>;
          st2 = st1\<lparr>rotaryDisabled := 1\<rparr>;
          st3 = emit [LcdSetCursor 0 1] st2
      in case pgm_read_word songTitles (songIndex st3) of
           None \<Rightarrow> None
         | Some str \<Rightarrow>
             (let st4 = lcdPrintProgStr str st3;
                  st5 = st4\<lparr>rotaryDisabled := 0\<rparr>
              in Some (st5\<lparr>rotaryChanged := 0\<rparr>)))"

section \<open>Codec and playback engine\<close>

definition noteToMotorShieldChannel :: "byte \<Rightarrow> byte" where
  "noteToMotorShieldChannel note =
     (if note = note_c then 0
      else if note = note_d then 1
      else if note = note_e then 2
      else if note = note_f then 3
      else if note = note_g then 4
      else if note = note_a then 5
      else if note = note_b then 6
      else if note = note_C then 7
      else 0x7F)"

definition sendMotorShieldCommand :: "byte \<Rightarrow> byte \<Rightarrow> state \<Rightarrow> state" where
  "sendMotorShieldCommand boardNum pdata st =
     (let st1 = emit [SerialPrint ''<''] st;
          st2 = (if boardNum < 0x10 then emit [SerialPrint ''0''] st1 else st1);
          st3 = emit [SerialPrintHex boardNum] st2;
          st4 = (if pdata < 0x10 then emit [SerialPrint ''0''] st3 else st3);
          st5 = emit [SerialPrintHex pdata] st4
      in emit [SerialPrint ''>''] st5)"

definition playNoteSerialTest :: "byte \<Rightarrow> state \<Rightarrow> state" where
  "playNoteSerialTest note st =
     (let st1 =
        (if note = note_c then emit [SerialPrint ''C5''] st
         else if note = note_d then emit [SerialPrint ''D5''] st
         else if note = note_e then emit [SerialPrint ''E5''] st
         else if note = note_f then emit [SerialPrint ''F5''] st
         else if note = note_g then emit [SerialPrint ''G5''] st
         else if note = note_a then emit [SerialPrint ''A5''] st
         else if note = note_b then emit [SerialPrint ''B5''] st
         else if note = note_C then emit [SerialPrint ''C6''] st
         else st)
      in emit [SerialPrint '' ''] st1)"

text \<open>
  \<open>1 << ch\<close> is computed in \<open>int\<close> (16 bits) and narrowed to the \<open>uint8_t\<close> parameter.
\<close>

definition playNote :: "byte \<Rightarrow> state \<Rightarrow> state" where
  "playNote note st =
     (if PLAY_DEBUG_MODE then playNoteSerialTest note st
      else
        let ch = noteToMotorShieldChannel note in
        if 0 \<le> ch \<and> ch \<le> 7
        then sendMotorShieldCommand slaveAddr (ucast (push_bit (unat ch) (1 :: 16 word))) st
        else st)"

text \<open>
  The tick count of \<open>pause\<close>:
  \<open>int delayTicks = (unsigned long)num16ths * 120 * 125 / tempo / 20\<close>.  The \<open>int\<close>
  \<open>tempo\<close> is converted to \<open>unsigned long\<close>; dividing by zero is undefined (\<open>None\<close>);
  the quotient is narrowed to \<open>int\<close>.
\<close>

definition delayTicks :: "byte \<Rightarrow> int \<Rightarrow> int option" where
  "delayTicks num16ths tmp =
     (if ulong tmp = 0 then None
      else Some (int16 (ulong (ulong (uint num16ths * 120) * 125) div ulong tmp div 20)))"

text \<open>
  The loop of \<open>pause\<close>.  The counter stays below \<open>delayTicks\<close>, which is an \<open>int\<close>, so
  \<open>i++\<close> does not overflow.
\<close>

function pause_loop :: "int \<Rightarrow> int \<Rightarrow> state \<Rightarrow> state" where
  "pause_loop i dticks st =
     (if i < dticks then
        (let st1 = btnRot_tick st;
             st2 = delay 20 st1
         in if songPlaying st2 = 0 then st2 else pause_loop (i + 1) dticks st2)
      else st)"
  by pat_completeness auto
termination
  by (relation "measure (\<lambda>(i, dticks, st). nat (dticks - i))") auto

definition pause :: "byte \<Rightarrow> state \<Rightarrow> state option" where
  "pause num16ths st =
     (case delayTicks num16ths (tempo st) of
        None \<Rightarrow> None
      | Some dticks \<Rightarrow> Some (pause_loop 0 dticks st))"

definition processSongData :: "byte \<Rightarrow> state \<Rightarrow> (byte \<times> state) option" where
  "processSongData dataVal st =
     (if dataVal = 0 then Some (0, st)
      else if dataVal > note_C then Some (0, st)
      else if songPlaying st = 0 then Some (0, st)
      else
        let st1 = (if dataVal \<ge> note_c then playNote dataVal st else st)
        in if dataVal < note_c
           then (case pause dataVal st1 of None \<Rightarrow> None | Some st2 \<Rightarrow> Some (1, st2))
           else Some (1, st1))"

text \<open>
  \<open>while (processSongData(pgm_read_byte(songDataPtr++)));\<close>  The pointer
  \<open>songDataPtr\<close> is the list of the bytes from the pointer to the end of its array;
  reading at the end of the array leaves the array (\<open>None\<close>).
\<close>

fun songLoop :: "byte list \<Rightarrow> state \<Rightarrow> state option" where
  "songLoop [] st = None"
| "songLoop (dataVal # songDataPtr) st =
     (case processSongData dataVal st of
        None \<Rightarrow> None
      | Some (r, st1) \<Rightarrow> if r \<noteq> 0 then songLoop songDataPtr st1 else Some st1)"

definition playSelectedSong :: "state \<Rightarrow> state option" where
  "playSelectedSong st =
     (let st1 = st\<lparr>rotaryDisabled := 1\<rparr>;
          st2 = printSongPlaying st1
      in case pgm_read_word songTempos (songIndex st2) of
           None \<Rightarrow> None
         | Some t \<Rightarrow>
             (let st3 = st2\<lparr>tempo := t\<rparr>
              in case pgm_read_word songData (songIndex st3) of
                   None \<Rightarrow> None
                 | Some songDataPtr \<Rightarrow>
                     (case songLoop songDataPtr st3 of
                        None \<Rightarrow> None
                      | Some st4 \<Rightarrow>
                          (let st5 = st4\<lparr>songPlaying := 0\<rparr>;
                               st6 = emit [SerialPrintln ''''] st5;
                               st7 = printSelectSong st6
                           in Some (st7\<lparr>rotaryDisabled := 0\<rparr>)))))"

section \<open>Initialisation and main loop\<close>

text \<open>
  \<open>initializeRotaryEncoder\<close> also attaches \<open>rotaryClick\<close> and \<open>rotaryLongPress\<close> to the
  button object; \<open>btnRot_tick\<close> calls them as attached.
\<close>

definition initializeRotaryEncoder :: "state \<Rightarrow> state" where
  "initializeRotaryEncoder st =
     (let st1 = emit [PinMode PIN_ROTARY_CLK INPUT_PULLUP, PinMode PIN_ROTARY_DAT INPUT_PULLUP,
                      PinMode PIN_ROTARY_SW INPUT_PULLUP, PinMode PIN_ROTARY_GND OUTPUT,
                      PinMode PIN_ROTARY_5V OUTPUT,
                      DigitalWrite PIN_ROTARY_GND False, DigitalWrite PIN_ROTARY_5V True,
                      AttachInterrupt 0, AttachInterrupt 1] st
      in st1\<lparr>rotaryDisabled := 0\<rparr>)"

definition pinOutLow :: "nat \<Rightarrow> state \<Rightarrow> state" where
  "pinOutLow pinNum st = emit [PinMode pinNum OUTPUT, DigitalWrite pinNum False] st"

definition initizlizeUnusedPins :: "state \<Rightarrow> state" where
  "initizlizeUnusedPins st = fold pinOutLow [7, 8, 9, 10, 11, 12, 13, 14, 15, 16, 17] st"

definition initializeLcd :: "state \<Rightarrow> state" where
  "initializeLcd st = printSelectSong (emit [LcdBegin, LcdBacklight, LcdClear] st)"

definition setup_sketch :: "state \<Rightarrow> state" where
  "setup_sketch st =
     (let st1 = initializeRotaryEncoder st;
          st2 = initizlizeUnusedPins st1;
          st3 = emit [SerialBegin SERIAL_BAUD_RATE] st2;
          st4 = initializeLcd st3
      in st4\<lparr>rotaryChanged := 1\<rparr>)"

definition loop :: "state \<Rightarrow> state option" where
  "loop st =
     (case (if songPlaying st \<noteq> 0 then playSelectedSong st else Some st) of
        None \<Rightarrow> None
      | Some st1 \<Rightarrow>
          (case (if rotaryChanged st1 \<noteq> 0 then printSelectedSong st1 else Some st1) of
             None \<Rightarrow> None
           | Some st2 \<Rightarrow> Some (delay 100 (btnRot_tick st2))))"

text \<open>
  The state at reset: globals without initialiser are zero, the inputs are what the world
  will do, nothing has been output.  \<open>run n\<close> is \<open>n\<close> rounds of \<open>loop\<close>.
\<close>

definition reset :: "btn_event list \<Rightarrow> irq list list \<Rightarrow> state" where
  "reset bs qs =
     \<lparr>songPlaying = 0, tempo = 0, songIndex = 0, rotaryCount = 0, rotaryChanged = 0,
      rotaryDisabled = 0, aFlag = 0, bFlag = 0, reading = 0,
      buttons = bs, irqs = qs, trace = []\<rparr>"

fun run :: "nat \<Rightarrow> state \<Rightarrow> state option" where
  "run 0 st = Some st"
| "run (Suc n) st = (case loop st of None \<Rightarrow> None | Some st1 \<Rightarrow> run n st1)"

section \<open>Observations on traces and states\<close>

text \<open>The serial and the display part of a trace, and the time waited in it.\<close>

fun is_serial :: "io \<Rightarrow> bool" where
  "is_serial (SerialPrint s) = True"
| "is_serial (SerialPrintHex x) = True"
| "is_serial (SerialPrintln s) = True"
| "is_serial ev = False"

fun is_lcd :: "io \<Rightarrow> bool" where
  "is_lcd LcdBegin = True"
| "is_lcd LcdBacklight = True"
| "is_lcd LcdClear = True"
| "is_lcd (LcdSetCursor col row) = True"
| "is_lcd (LcdPrint s) = True"
| "is_lcd (LcdWrite ch) = True"
| "is_lcd ev = False"

definition serial_of :: "io list \<Rightarrow> io list" where
  "serial_of tr = filter is_serial tr"

definition lcd_of :: "io list \<Rightarrow> io list" where
  "lcd_of tr = filter is_lcd tr"

fun waited :: "io list \<Rightarrow> nat" where
  "waited [] = 0"
| "waited (Delay ms # tr) = ms + waited tr"
| "waited (ev # tr) = waited tr"

text \<open>The events of one call \<open>sendMotorShieldCommand boardNum pdata\<close>: the frame \<open><aabb>\<close>.\<close>

definition cmd_frame :: "byte \<Rightarrow> byte \<Rightarrow> io list" where
  "cmd_frame boardNum pdata =
     [SerialPrint ''<''] @ (if boardNum < 0x10 then [SerialPrint ''0''] else []) @
     [SerialPrintHex boardNum] @ (if pdata < 0x10 then [SerialPrint ''0''] else []) @
     [SerialPrintHex pdata, SerialPrint ''>'']"

text \<open>The eight note codes of the source, in the order of their \<open>#define\<close>s.\<close>

definition note_codes :: "byte list" where
  "note_codes = [note_c, note_d, note_e, note_f, note_g, note_a, note_b, note_C]"

text \<open>
  The part of a song that is played when nobody cancels: the bytes before the first
  end-of-song byte, and among them the note codes that have a channel.
\<close>

definition is_end :: "byte \<Rightarrow> bool" where
  "is_end dataVal \<longleftrightarrow> dataVal = 0 \<or> dataVal > note_C"

definition played :: "byte list \<Rightarrow> byte list" where
  "played songDataPtr = takeWhile (\<lambda>dataVal. \<not> is_end dataVal) songDataPtr"

definition valid_notes :: "byte list \<Rightarrow> byte list" where
  "valid_notes bs = filter (\<lambda>dataVal. dataVal \<ge> note_c \<and> noteToMotorShieldChannel dataVal \<le> 7) bs"



definition selection_ok :: "state \<Rightarrow> bool" where
  "selection_ok st \<longleftrightarrow> 0 \<le> rotaryCount st \<and> rotaryCount st \<le> SONG_COUNT - 1"

text \<open>
  What a stretch of playback leaves alone: tempo, song index, the interrupt gate and the
  display; behind a closed gate also the encoder state; and, as long as no click is
  pending, the playback flag.
\<close>

definition keeps :: "state \<Rightarrow> state \<Rightarrow> bool" where
  "keeps st st' \<longleftrightarrow>
     tempo st' = tempo st \<and> songIndex st' = songIndex st \<and>
     rotaryDisabled st' = rotaryDisabled st \<and>
     lcd_of (trace st') = lcd_of (trace st) \<and>
     (rotaryDisabled st \<noteq> 0 \<longrightarrow>
        rotaryCount st' = rotaryCount st \<and> rotaryChanged st' = rotaryChanged st \<and>
        aFlag st' = aFlag st \<and> bFlag st' = bFlag st \<and> reading st' = reading st) \<and>
     (selection_ok st \<longrightarrow> selection_ok st') \<and>
     (Click \<notin> set (buttons st) \<longrightarrow> Click \<notin> set (buttons st') \<and> songPlaying st' = songPlaying st)"

text \<open>The events of the command a note code sends, and of one whole playback.\<close>

definition note_cmd :: "byte \<Rightarrow> io list" where
  "note_cmd dataVal = cmd_frame slaveAddr (push_bit (unat (noteToMotorShieldChannel dataVal)) 1)"

definition playback_out :: "byte list \<Rightarrow> io list" where
  "playback_out ns = concat (map note_cmd ns) @ [SerialPrintln '''']"

text \<open>
  The serial output so far is a sequence of playbacks of note codes; the sketch is in order
  when the selection and the song index are inside the catalog and the serial output has
  that form.
\<close>

definition serial_history :: "state \<Rightarrow> byte list list \<Rightarrow> bool" where
  "serial_history st plays \<longleftrightarrow>
     (\<forall>ns \<in> set plays. set ns \<subseteq> set note_codes) \<and>
     serial_of (trace st) = concat (map playback_out plays)"

definition sketch_ok :: "state \<Rightarrow> bool" where
  "sketch_ok st \<longleftrightarrow>
     selection_ok st \<and> 0 \<le> songIndex st \<and> songIndex st < SONG_COUNT \<and>
     (\<exists>plays. serial_history st plays)"

text \<open>
  A playback during which the encoder is turned: ``Scale'' is about to play, the first
  wait tick sees no button event and the second a click, and during the first tick the
  encoder delivers a full clockwise detent.
\<close>

definition rotation_scenario :: state where
  "rotation_scenario =
     (reset [NoEvent, Click] [[IrqPinB 0x08, IrqPinA 0x0C]])\<lparr>songPlaying := 1\<rparr>"

subsection \<open>The codec as the specification words it\<close>

text \<open>
  The specification describes the codec as a function from bytes to events and the engine
  as acting on the decoded event.  The source has no such function: \<open>processSongData\<close>
  tests the byte and acts at once.  \<open>spec_decode\<close> and \<open>spec_perform\<close> follow the
  specification; they are compared with \<open>processSongData\<close> below.
\<close>

datatype event = Note byte | Pause byte | EndOfSong

definition spec_decode :: "byte \<Rightarrow> event" where
  "spec_decode dataVal =
     (if dataVal = 0x00 then EndOfSong
      else if dataVal \<le> 0x7F then Pause dataVal
      else if dataVal \<le> 0x8C then Note (noteToMotorShieldChannel dataVal)
      else EndOfSong)"

fun spec_perform :: "event \<Rightarrow> state \<Rightarrow> (byte \<times> state) option" where
  "spec_perform EndOfSong st = Some (0, st)"
| "spec_perform (Note ch) st =
     (if songPlaying st = 0 then Some (0, st)
      else if ch \<le> 7 then Some (1, emit (cmd_frame 0 (push_bit (unat ch) 1)) st)
      else Some (1, st))"
| "spec_perform (Pause num16ths) st =
     (if songPlaying st = 0 then Some (0, st)
      else map_option (Pair 1) (pause num16ths st))"

section \<open>Basic facts\<close>

lemma serial_of_append [simp]: "serial_of (xs @ ys) = serial_of xs @ serial_of ys"
  by (simp add: serial_of_def)

lemma lcd_of_append [simp]: "lcd_of (xs @ ys) = lcd_of xs @ lcd_of ys"
  by (simp add: lcd_of_def)

lemma keeps_refl [simp]: "keeps st st"
  by (simp add: keeps_def)

lemma keeps_trans: "keeps st st1 \<Longrightarrow> keeps st1 st2 \<Longrightarrow> keeps st st2"
  by (simp add: keeps_def)

lemma int16_id: "- 32768 \<le> x \<Longrightarrow> x \<le> 32767 \<Longrightarrow> int16 x = x"
  by (simp add: int16_def)

lemma rotaryUp_selection_ok: "selection_ok st \<Longrightarrow> selection_ok (rotaryUp st)"
  by (simp add: selection_ok_def rotaryUp_def rotaryMax_def Let_def int16_id)

lemma rotaryDown_selection_ok: "selection_ok st \<Longrightarrow> selection_ok (rotaryDown st)"
  by (simp add: selection_ok_def rotaryDown_def Let_def int16_id)

lemma rotaryUp_fields [simp]:
  "songPlaying (rotaryUp st) = songPlaying st" "tempo (rotaryUp st) = tempo st"
  "songIndex (rotaryUp st) = songIndex st" "rotaryDisabled (rotaryUp st) = rotaryDisabled st"
  "buttons (rotaryUp st) = buttons st" "irqs (rotaryUp st) = irqs st"
  "trace (rotaryUp st) = trace st"
  by (simp_all add: rotaryUp_def Let_def)

lemma rotaryDown_fields [simp]:
  "songPlaying (rotaryDown st) = songPlaying st" "tempo (rotaryDown st) = tempo st"
  "songIndex (rotaryDown st) = songIndex st" "rotaryDisabled (rotaryDown st) = rotaryDisabled st"
  "buttons (rotaryDown st) = buttons st" "irqs (rotaryDown st) = irqs st"
  "trace (rotaryDown st) = trace st"
  by (simp_all add: rotaryDown_def Let_def)

lemma isr_disabled: "rotaryDisabled st \<noteq> 0 \<Longrightarrow> isr q st = st"
  by (cases q) (simp_all add: PinA_def PinB_def)

lemma isr_fields [simp]:
  "songPlaying (isr q st) = songPlaying st" "tempo (isr q st) = tempo st"
  "songIndex (isr q st) = songIndex st" "rotaryDisabled (isr q st) = rotaryDisabled st"
  "buttons (isr q st) = buttons st" "irqs (isr q st) = irqs st"
  "trace (isr q st) = trace st"
  by (cases q; simp add: PinA_def PinB_def Let_def)+

lemma rotaryUp_count:
  "rotaryCount (rotaryUp st) =
     (if int16 (rotaryCount st + 1) > rotaryMax then rotaryMax else int16 (rotaryCount st + 1))"
  by (simp add: rotaryUp_def Let_def)

lemma rotaryDown_count:
  "rotaryCount (rotaryDown st) =
     (if int16 (rotaryCount st - 1) < 0 then 0 else int16 (rotaryCount st - 1))"
  by (simp add: rotaryDown_def Let_def)

lemma isr_selection_ok: "selection_ok st \<Longrightarrow> selection_ok (isr q st)"
  by (cases q)
    (simp_all add: PinA_def PinB_def Let_def selection_ok_def rotaryUp_count rotaryDown_count
       int16_id rotaryMax_def)

lemma fold_isr_disabled: "rotaryDisabled st \<noteq> 0 \<Longrightarrow> fold isr batch st = st"
  by (induction batch) (simp_all add: isr_disabled)

lemma fold_isr_fields [simp]:
  "songPlaying (fold isr batch st) = songPlaying st" "tempo (fold isr batch st) = tempo st"
  "songIndex (fold isr batch st) = songIndex st"
  "rotaryDisabled (fold isr batch st) = rotaryDisabled st"
  "buttons (fold isr batch st) = buttons st" "irqs (fold isr batch st) = irqs st"
  "trace (fold isr batch st) = trace st"
  by (induction batch arbitrary: st; simp)+

lemma fold_isr_selection_ok: "selection_ok st \<Longrightarrow> selection_ok (fold isr batch st)"
  by (induction batch arbitrary: st) (simp_all add: isr_selection_ok)

lemma emit_fields [simp]:
  "songPlaying (emit evs st) = songPlaying st" "tempo (emit evs st) = tempo st"
  "songIndex (emit evs st) = songIndex st" "rotaryCount (emit evs st) = rotaryCount st"
  "rotaryChanged (emit evs st) = rotaryChanged st"
  "rotaryDisabled (emit evs st) = rotaryDisabled st"
  "aFlag (emit evs st) = aFlag st" "bFlag (emit evs st) = bFlag st"
  "reading (emit evs st) = reading st"
  "buttons (emit evs st) = buttons st" "irqs (emit evs st) = irqs st"
  "trace (emit evs st) = trace st @ evs"
  by (simp_all add: emit_def)

lemma emit_emit [simp]: "emit ys (emit xs st) = emit (xs @ ys) st"
  by (simp add: emit_def)

lemma emit_selection_ok [simp]: "selection_ok (emit evs st) = selection_ok st"
  by (simp add: selection_ok_def)

lemma delay_fields [simp]:
  "songPlaying (delay ms st) = songPlaying st" "tempo (delay ms st) = tempo st"
  "songIndex (delay ms st) = songIndex st" "rotaryDisabled (delay ms st) = rotaryDisabled st"
  "buttons (delay ms st) = buttons st" "irqs (delay ms st) = tl (irqs st)"
  "trace (delay ms st) = trace st @ [Delay ms]"
  by (simp_all add: delay_def split: list.split)

lemma delay_disabled:
  "rotaryDisabled st \<noteq> 0 \<Longrightarrow> delay ms st = emit [Delay ms] (st\<lparr>irqs := tl (irqs st)\<rparr>)"
  by (simp add: delay_def fold_isr_disabled split: list.split)

lemma delay_selection_ok: "selection_ok st \<Longrightarrow> selection_ok (delay ms st)"
proof (cases "irqs st")
  case Nil
  assume "selection_ok st"
  then show ?thesis by (simp add: delay_def Nil)
next
  case (Cons batch rest)
  assume "selection_ok st"
  then have "selection_ok (fold isr batch (st\<lparr>irqs := rest\<rparr>))"
    by (intro fold_isr_selection_ok) (simp add: selection_ok_def)
  then show ?thesis by (simp add: delay_def Cons)
qed

lemma keeps_delay: "keeps st (delay ms st)"
  unfolding keeps_def
  by (auto simp: delay_selection_ok delay_disabled lcd_of_def)

lemma btnRot_tick_fields [simp]:
  "tempo (btnRot_tick st) = tempo st" "songIndex (btnRot_tick st) = songIndex st"
  "rotaryCount (btnRot_tick st) = rotaryCount st"
  "rotaryChanged (btnRot_tick st) = rotaryChanged st"
  "rotaryDisabled (btnRot_tick st) = rotaryDisabled st"
  "aFlag (btnRot_tick st) = aFlag st" "bFlag (btnRot_tick st) = bFlag st"
  "reading (btnRot_tick st) = reading st" "irqs (btnRot_tick st) = irqs st"
  "trace (btnRot_tick st) = trace st" "buttons (btnRot_tick st) = tl (buttons st)"
  by (simp_all add: btnRot_tick_def rotaryClick_def rotaryLongPress_def
        split: list.split btn_event.split)

lemma btnRot_tick_songPlaying:
  "songPlaying (btnRot_tick st) =
     (if buttons st \<noteq> [] \<and> hd (buttons st) = Click
      then (if songPlaying st = 0 then 1 else 0) else songPlaying st)"
  by (simp add: btnRot_tick_def rotaryClick_def rotaryLongPress_def
        split: list.split btn_event.split)

lemma keeps_btnRot_tick: "keeps st (btnRot_tick st)"
  unfolding keeps_def
  by (cases "buttons st") (auto simp: selection_ok_def btnRot_tick_songPlaying)

declare pause_loop.simps [simp del]

lemma keeps_pause_loop: "keeps st (pause_loop i dticks st)"
proof (induction i dticks st rule: pause_loop.induct)
  case (1 i dticks st)
  have k: "keeps st (delay 20 (btnRot_tick st))"
    using keeps_btnRot_tick keeps_delay by (rule keeps_trans)
  show ?case
  proof (cases "i < dticks \<and> songPlaying (delay 20 (btnRot_tick st)) \<noteq> 0")
    case True
    then have "keeps (delay 20 (btnRot_tick st)) (pause_loop (i + 1) dticks (delay 20 (btnRot_tick st)))"
      using "1.IH" by simp
    with k have "keeps st (pause_loop (i + 1) dticks (delay 20 (btnRot_tick st)))"
      by (rule keeps_trans)
    with True show ?thesis by (subst pause_loop.simps) (simp add: Let_def)
  next
    case False
    with k show ?thesis by (subst pause_loop.simps) (auto simp: Let_def)
  qed
qed

lemma pause_loop_songPlaying_buttons_serial:
  "serial_of (trace (pause_loop i dticks st)) = serial_of (trace st)"
proof (induction i dticks st rule: pause_loop.induct)
  case (1 i dticks st)
  show ?case
  proof (cases "i < dticks \<and> songPlaying (delay 20 (btnRot_tick st)) \<noteq> 0")
    case True
    then show ?thesis using "1.IH" by (subst pause_loop.simps) (simp add: Let_def serial_of_def)
  next
    case False
    then show ?thesis by (subst pause_loop.simps) (auto simp: Let_def serial_of_def)
  qed
qed

lemma byte_le7: "{ch :: byte. ch \<le> 7} = {0, 1, 2, 3, 4, 5, 6, 7}"
  by (auto simp: word_le_nat_alt word_unat_eq_iff)

lemma sendMotorShieldCommand_emit:
  "sendMotorShieldCommand boardNum pdata st = emit (cmd_frame boardNum pdata) st"
  by (simp add: sendMotorShieldCommand_def cmd_frame_def Let_def)

lemma channel_cases: "ch \<le> 7 \<Longrightarrow> (ch :: byte) \<in> {0, 1, 2, 3, 4, 5, 6, 7}"
  using byte_le7 by blast

lemma mask_narrowed:
  "ch \<le> 7 \<Longrightarrow> (ucast ((2 :: 16 word) ^ unat (ch :: byte)) :: byte) = 2 ^ unat ch"
  by (drule channel_cases) auto

lemma channel_valid_iff:
  "noteToMotorShieldChannel note \<le> 7 \<longleftrightarrow> note \<in> set note_codes"
  by (simp add: noteToMotorShieldChannel_def note_codes_def)

lemma playNote_eq:
  "playNote note st =
     (if noteToMotorShieldChannel note \<le> 7
      then emit (cmd_frame 0 (push_bit (unat (noteToMotorShieldChannel note)) 1)) st
      else st)"
  by (simp add: playNote_def Let_def sendMotorShieldCommand_emit slaveAddr_def mask_narrowed)

lemma byte_ranges:
  "\<not> (dataVal :: byte) \<le> 0x7F \<longleftrightarrow> 0x80 \<le> dataVal"
  "(dataVal :: byte) < 0x80 \<longleftrightarrow> dataVal \<le> 0x7F"
  "\<not> (dataVal :: byte) \<le> 0x8C \<longleftrightarrow> 0x8C < dataVal"
  by (auto simp: word_le_nat_alt word_less_nat_alt)

lemma processSongData_refines:
  "processSongData dataVal st = spec_perform (spec_decode dataVal) st"
  by (cases "pause dataVal st")
    (auto simp: processSongData_def spec_decode_def Let_def playNote_eq
       word_le_nat_alt word_less_nat_alt unat_eq_0)

lemma spec_decode_pause: "1 \<le> dataVal \<Longrightarrow> dataVal \<le> 0x7F \<Longrightarrow> spec_decode dataVal = Pause dataVal"
  by (auto simp: spec_decode_def)

lemma spec_decode_end: "spec_decode 0 = EndOfSong" "0x8C < dataVal \<Longrightarrow> spec_decode dataVal = EndOfSong"
  by (auto simp: spec_decode_def word_le_nat_alt word_less_nat_alt)

lemma uint_byte_le: "uint (n :: byte) \<le> 255"
  using uint_lt2p [of n] by simp

lemma delayTicks_exact:
  assumes "0 < t" "t \<le> 32767" "uint n * 120 * 125 div t div 20 \<le> 32767"
  shows "delayTicks n t = Some (uint n * 120 * 125 div t div 20)"
proof -
  have n: "0 \<le> uint n" "uint n \<le> 255" using uint_byte_le by auto
  have t: "ulong t = t" using assms by (simp add: ulong_def)
  have a: "ulong (uint n * 120) = uint n * 120" using n by (simp add: ulong_def)
  have b: "ulong (uint n * 120 * 125) = uint n * 120 * 125" using n by (simp add: ulong_def)
  have nn: "0 \<le> uint n * 120 * 125 div t div 20"
    using n assms(1) by (simp add: pos_imp_zdiv_nonneg_iff)
  have c: "int16 (uint n * 120 * 125 div t div 20) = uint n * 120 * 125 div t div 20"
    using nn assms(3) by (simp add: int16_def)
  show ?thesis using assms(1) a b c by (simp add: delayTicks_def t)
qed

lemma delayTicks_fits:
  assumes "3 \<le> t" "n \<le> 127"
  shows "uint (n::byte) * 120 * 125 div t div 20 \<le> 32767"
proof -
  have "uint n \<le> 127" using assms(2) by (simp add: word_le_def)
  then have "uint n * 120 * 125 \<le> 1905000" by simp
  then have "uint n * 120 * 125 div t \<le> 1905000 div t" by (rule zdiv_mono1) (use assms in simp)
  also have "\<dots> \<le> 1905000 div 3" by (rule zdiv_mono2) (use assms in simp_all)
  finally have "uint n * 120 * 125 div t \<le> 635000" by simp
  then have "uint n * 120 * 125 div t div 20 \<le> 635000 div 20" by (rule zdiv_mono1) simp
  then show ?thesis by simp
qed

lemma tick_no_click:
  assumes "Click \<notin> set (buttons st)"
  shows "songPlaying (delay 20 (btnRot_tick st)) = songPlaying st"
    and "Click \<notin> set (buttons (delay 20 (btnRot_tick st)))"
    and "trace (delay 20 (btnRot_tick st)) = trace st @ [Delay 20]"
proof -
  show "songPlaying (delay 20 (btnRot_tick st)) = songPlaying st"
    using assms by (cases "buttons st") (auto simp: btnRot_tick_songPlaying)
  show "Click \<notin> set (buttons (delay 20 (btnRot_tick st)))"
    using assms by (cases "buttons st") auto
  show "trace (delay 20 (btnRot_tick st)) = trace st @ [Delay 20]"
    by simp
qed

lemma pause_loop_no_click:
  "songPlaying st \<noteq> 0 \<Longrightarrow> Click \<notin> set (buttons st) \<Longrightarrow>
   trace (pause_loop i dticks st) = trace st @ replicate (nat (dticks - i)) (Delay 20)"
proof (induction i dticks st rule: pause_loop.induct)
  case (1 i dticks st)
  show ?case
  proof (cases "i < dticks")
    case True
    let ?st2 = "delay 20 (btnRot_tick st)"
    have sp: "songPlaying ?st2 \<noteq> 0" and nc: "Click \<notin> set (buttons ?st2)"
      and tr: "trace ?st2 = trace st @ [Delay 20]"
      using "1.prems" tick_no_click [of st] by simp_all
    define k where "k = nat (dticks - (i + 1))"
    have k: "nat (dticks - i) = Suc k"
      using True by (simp add: k_def)
    have "trace (pause_loop (i + 1) dticks ?st2) = trace ?st2 @ replicate k (Delay 20)"
      unfolding k_def using "1.IH" [OF True refl refl _ sp nc] sp by simp
    moreover have "pause_loop i dticks st = pause_loop (i + 1) dticks ?st2"
      using True sp by (simp add: pause_loop.simps [of i dticks st] Let_def)
    ultimately have "trace (pause_loop i dticks st) = trace st @ replicate (Suc k) (Delay 20)"
      by (simp add: tr)
    then show ?thesis
      by (simp only: k)
  next
    case False
    then show ?thesis by (simp add: pause_loop.simps [of i dticks st])
  qed
qed



lemma pause_loop_cancel:
  "songPlaying st \<noteq> 0 \<Longrightarrow> buttons st = pre @ Click # rest \<Longrightarrow> Click \<notin> set pre \<Longrightarrow>
   int (length pre) < dticks - i \<Longrightarrow>
   trace (pause_loop i dticks st) = trace st @ replicate (Suc (length pre)) (Delay 20) \<and>
   songPlaying (pause_loop i dticks st) = 0 \<and> buttons (pause_loop i dticks st) = rest"
proof (induction pre arbitrary: i st)
  case Nil
  then have lt: "i < dticks" by simp
  have "songPlaying (delay 20 (btnRot_tick st)) = 0"
    using Nil by (simp add: btnRot_tick_songPlaying)
  then show ?case
    using lt Nil by (simp add: pause_loop.simps [of i dticks st] Let_def)
next
  case (Cons ev pre)
  then have lt: "i < dticks" by simp
  let ?st2 = "delay 20 (btnRot_tick st)"
  have sp: "songPlaying ?st2 \<noteq> 0"
    using Cons.prems by (auto simp: btnRot_tick_songPlaying)
  have bs: "buttons ?st2 = pre @ Click # rest"
    using Cons.prems by simp
  have "trace (pause_loop (i + 1) dticks ?st2) = trace ?st2 @ replicate (Suc (length pre)) (Delay 20) \<and>
     songPlaying (pause_loop (i + 1) dticks ?st2) = 0 \<and> buttons (pause_loop (i + 1) dticks ?st2) = rest"
    using Cons.prems by (intro Cons.IH sp bs) simp_all
  then show ?case
    using lt sp by (simp add: pause_loop.simps [of i dticks st] Let_def replicate_append_same)
qed

subsection \<open>The playback loop\<close>

lemma lcd_of_cmd_frame [simp]: "lcd_of (cmd_frame boardNum pdata) = []"
  by (simp add: lcd_of_def cmd_frame_def)

lemma serial_of_cmd_frame [simp]: "serial_of (cmd_frame boardNum pdata) = cmd_frame boardNum pdata"
  by (simp add: serial_of_def cmd_frame_def)

lemma keeps_emit: "lcd_of evs = [] \<Longrightarrow> keeps st (emit evs st)"
  by (simp add: keeps_def)

lemma playNote_cases:
  "playNote dataVal st =
     (if dataVal \<in> set note_codes then emit (note_cmd dataVal) st else st)"
  by (simp add: playNote_eq channel_valid_iff note_cmd_def slaveAddr_def)

lemma keeps_playNote: "keeps st (playNote dataVal st)"
  by (simp add: playNote_cases keeps_emit note_cmd_def)

lemma keeps_pause: "pause num16ths st = Some st' \<Longrightarrow> keeps st st'"
  by (auto simp: pause_def keeps_pause_loop split: option.splits)

lemma serial_pause: "pause num16ths st = Some st' \<Longrightarrow> serial_of (trace st') = serial_of (trace st)"
  by (auto simp: pause_def pause_loop_songPlaying_buttons_serial split: option.splits)

lemma pause_Some: "ulong (tempo st) \<noteq> 0 \<Longrightarrow> \<exists>st'. pause num16ths st = Some st'"
  by (simp add: pause_def delayTicks_def)

text \<open>The four ways \<open>processSongData\<close> can go.\<close>

lemma processSongData_stop:
  "is_end dataVal \<or> songPlaying st = 0 \<Longrightarrow> processSongData dataVal st = Some (0, st)"
  by (auto simp: processSongData_def is_end_def)

lemma processSongData_note:
  "\<not> is_end dataVal \<Longrightarrow> songPlaying st \<noteq> 0 \<Longrightarrow> 0x80 \<le> dataVal \<Longrightarrow>
   processSongData dataVal st = Some (1, playNote dataVal st)"
  by (auto simp: processSongData_def is_end_def Let_def word_le_nat_alt word_less_nat_alt)

lemma processSongData_pause:
  "\<not> is_end dataVal \<Longrightarrow> songPlaying st \<noteq> 0 \<Longrightarrow> \<not> 0x80 \<le> dataVal \<Longrightarrow>
   processSongData dataVal st = map_option (Pair 1) (pause dataVal st)"
  by (cases "pause dataVal st")
     (auto simp: processSongData_def is_end_def Let_def word_le_nat_alt word_less_nat_alt)

lemma keeps_processSongData:
  assumes "processSongData dataVal st = Some (r, st')"
  shows "keeps st st'"
proof (cases "is_end dataVal \<or> songPlaying st = 0")
  case True
  with assms show ?thesis by (simp add: processSongData_stop)
next
  case False
  show ?thesis
  proof (cases "0x80 \<le> dataVal")
    case True
    with False assms show ?thesis by (auto simp: processSongData_note keeps_playNote)
  next
    case b: False
    with False assms show ?thesis by (auto simp: processSongData_pause keeps_pause)
  qed
qed

lemma keeps_songLoop: "songLoop songDataPtr st = Some st' \<Longrightarrow> keeps st st'"
proof (induction songDataPtr arbitrary: st)
  case Nil
  then show ?case by simp
next
  case (Cons dataVal songDataPtr)
  then obtain r st1 where p: "processSongData dataVal st = Some (r, st1)"
    by (auto split: option.splits)
  then have k: "keeps st st1" by (rule keeps_processSongData)
  show ?case
  proof (cases "r = 0")
    case True
    with Cons.prems p k show ?thesis by simp
  next
    case False
    with Cons.prems p have "songLoop songDataPtr st1 = Some st'" by simp
    then have "keeps st1 st'" by (rule Cons.IH)
    with k show ?thesis by (rule keeps_trans)
  qed
qed

lemma processSongData_Some:
  "ulong (tempo st) \<noteq> 0 \<Longrightarrow> \<exists>r st'. processSongData dataVal st = Some (r, st')"
  using pause_Some [of st dataVal]
  by (cases "is_end dataVal \<or> songPlaying st = 0"; cases "0x80 \<le> dataVal")
     (auto simp: processSongData_stop processSongData_note processSongData_pause)

lemma songLoop_Some:
  "ulong (tempo st) \<noteq> 0 \<Longrightarrow> \<exists>dataVal \<in> set songDataPtr. is_end dataVal \<Longrightarrow>
   \<exists>st'. songLoop songDataPtr st = Some st'"
proof (induction songDataPtr arbitrary: st)
  case Nil
  then show ?case by simp
next
  case (Cons dataVal songDataPtr)
  from processSongData_Some [OF Cons.prems(1)]
  obtain r st1 where p: "processSongData dataVal st = Some (r, st1)" by blast
  show ?case
  proof (cases "r = 0")
    case True
    with p show ?thesis by simp
  next
    case False
    then have "\<not> is_end dataVal" using p by (auto simp: processSongData_stop)
    with Cons.prems(2) have e: "\<exists>dataVal \<in> set songDataPtr. is_end dataVal" by simp
    from p have "tempo st1 = tempo st" using keeps_processSongData by (auto simp: keeps_def)
    with Cons.prems(1) have "ulong (tempo st1) \<noteq> 0" by simp
    from Cons.IH [OF this e] p False show ?thesis by simp
  qed
qed

lemma serial_note_cmd [simp]: "serial_of (note_cmd dataVal) = note_cmd dataVal"
  by (simp add: note_cmd_def)

lemma played_Cons:
  "played (dataVal # songDataPtr) = (if is_end dataVal then [] else dataVal # played songDataPtr)"
  by (simp add: played_def)

lemma valid_notes_Cons:
  "valid_notes (dataVal # bs) =
     (if 0x80 \<le> dataVal \<and> dataVal \<in> set note_codes then dataVal # valid_notes bs else valid_notes bs)"
  by (simp add: valid_notes_def channel_valid_iff)

lemma note_codes_ge: "dataVal \<in> set note_codes \<Longrightarrow> 0x80 \<le> dataVal"
  by (auto simp: note_codes_def)

text \<open>Whatever the buttons do, the commands sent are those of a prefix of the valid notes.\<close>

lemma songLoop_serial:
  "songLoop songDataPtr st = Some st' \<Longrightarrow>
   \<exists>k. serial_of (trace st') =
        serial_of (trace st) @ concat (map note_cmd (take k (valid_notes (played songDataPtr))))"
proof (induction songDataPtr arbitrary: st)
  case Nil
  then show ?case by simp
next
  case (Cons dataVal songDataPtr)
  show ?case
  proof (cases "is_end dataVal \<or> songPlaying st = 0")
    case True
    with Cons.prems have "st' = st" by (simp add: processSongData_stop)
    then have "serial_of (trace st') =
        serial_of (trace st) @ concat (map note_cmd (take 0 (valid_notes (played (dataVal # songDataPtr)))))"
      by simp
    then show ?thesis by blast
  next
    case False
    then have ne: "\<not> is_end dataVal" and sp: "songPlaying st \<noteq> 0" by simp_all
    show ?thesis
    proof (cases "0x80 \<le> dataVal")
      case True
      with Cons.prems ne sp have "songLoop songDataPtr (playNote dataVal st) = Some st'"
        by (simp add: processSongData_note)
      from Cons.IH [OF this] obtain k where
        k: "serial_of (trace st') = serial_of (trace (playNote dataVal st)) @
              concat (map note_cmd (take k (valid_notes (played songDataPtr))))" ..
      show ?thesis
      proof (cases "dataVal \<in> set note_codes")
        case v: True
        with k True ne have "serial_of (trace st') = serial_of (trace st) @
              concat (map note_cmd (take (Suc k) (valid_notes (played (dataVal # songDataPtr)))))"
          by (simp add: playNote_cases played_Cons valid_notes_Cons)
        then show ?thesis ..
      next
        case v: False
        with k True ne have "serial_of (trace st') = serial_of (trace st) @
              concat (map note_cmd (take k (valid_notes (played (dataVal # songDataPtr)))))"
          by (simp add: playNote_cases played_Cons valid_notes_Cons)
        then show ?thesis ..
      qed
    next
      case b: False
      with Cons.prems ne sp obtain st1 where p: "pause dataVal st = Some st1"
        and l: "songLoop songDataPtr st1 = Some st'"
        by (cases "pause dataVal st") (auto simp: processSongData_pause)
      from Cons.IH [OF l] obtain k where
        k: "serial_of (trace st') = serial_of (trace st1) @
              concat (map note_cmd (take k (valid_notes (played songDataPtr))))" ..
      with b ne serial_pause [OF p] have "serial_of (trace st') = serial_of (trace st) @
              concat (map note_cmd (take k (valid_notes (played (dataVal # songDataPtr)))))"
        by (simp add: played_Cons valid_notes_Cons)
      then show ?thesis ..
    qed
  qed
qed

text \<open>Without a click, all of them are sent, and the loop ends at the end-of-song byte.\<close>

lemma songLoop_no_click:
  "songPlaying st \<noteq> 0 \<Longrightarrow> Click \<notin> set (buttons st) \<Longrightarrow> ulong (tempo st) \<noteq> 0 \<Longrightarrow>
   \<exists>dataVal \<in> set songDataPtr. is_end dataVal \<Longrightarrow>
   \<exists>st'. songLoop songDataPtr st = Some st' \<and>
     serial_of (trace st') =
       serial_of (trace st) @ concat (map note_cmd (valid_notes (played songDataPtr)))"
proof (induction songDataPtr arbitrary: st)
  case Nil
  then show ?case by simp
next
  case (Cons dataVal songDataPtr)
  show ?case
  proof (cases "is_end dataVal")
    case True
    then show ?thesis by (simp add: processSongData_stop played_Cons valid_notes_def)
  next
    case ne: False
    with Cons.prems(4) have e: "\<exists>dataVal \<in> set songDataPtr. is_end dataVal" by simp
    show ?thesis
    proof (cases "0x80 \<le> dataVal")
      case True
      let ?st1 = "playNote dataVal st"
      have "songPlaying ?st1 \<noteq> 0" "Click \<notin> set (buttons ?st1)" "ulong (tempo ?st1) \<noteq> 0"
        using Cons.prems by (simp_all add: playNote_cases)
      from Cons.IH [OF this e] obtain st' where
        "songLoop songDataPtr ?st1 = Some st'"
        "serial_of (trace st') = serial_of (trace ?st1) @
           concat (map note_cmd (valid_notes (played songDataPtr)))" by blast
      with True ne Cons.prems(1) show ?thesis
        by (simp add: processSongData_note playNote_cases played_Cons valid_notes_Cons)
    next
      case b: False
      from pause_Some [OF Cons.prems(3)] obtain st1 where p: "pause dataVal st = Some st1" ..
      from keeps_pause [OF p] Cons.prems
      have "songPlaying st1 \<noteq> 0" "Click \<notin> set (buttons st1)" "ulong (tempo st1) \<noteq> 0"
        by (simp_all add: keeps_def)
      from Cons.IH [OF this e] obtain st' where
        "songLoop songDataPtr st1 = Some st'"
        "serial_of (trace st') = serial_of (trace st1) @
           concat (map note_cmd (valid_notes (played songDataPtr)))" by blast
      with b ne Cons.prems(1) p serial_pause [OF p] show ?thesis
        by (simp add: processSongData_pause played_Cons valid_notes_Cons)
    qed
  qed
qed

subsection \<open>The catalog\<close>

lemma songData_terminated: "songDataPtr \<in> set songData \<Longrightarrow> songDataPtr \<noteq> [] \<and> last songDataPtr = 0"
  by (auto simp: songData_def songData0_def songData1_def songData2_def songData3_def
      songData4_def songData5_def songData6_def songData7_def songData8_def songData9_def
      songData10_def songData11_def)

lemma songData_has_end: "songDataPtr \<in> set songData \<Longrightarrow> \<exists>dataVal \<in> set songDataPtr. is_end dataVal"
  using songData_terminated [of songDataPtr] last_in_set [of songDataPtr]
  by (auto simp: is_end_def)

lemma songTempos_range: "t \<in> set songTempos \<Longrightarrow> 120 \<le> t \<and> t \<le> 200"
  by (auto simp: songTempos_def)

lemma songTempos_ulong: "t \<in> set songTempos \<Longrightarrow> ulong t \<noteq> 0"
  by (auto simp: songTempos_def ulong_def)

lemma catalog_lengths [simp]:
  "length songData = 12" "length songTempos = 12" "length songTitles = 12"
  by (simp_all add: songData_def songTempos_def songTitles_def)

lemma pgm_read_word_in:
  "0 \<le> i \<Longrightarrow> i < int (length table) \<Longrightarrow>
   pgm_read_word table i = Some (table ! nat i) \<and> table ! nat i \<in> set table"
  by (simp add: pgm_read_word_def)

subsection \<open>Playing a song, and the main loop\<close>

lemma set_valid_notes: "set (valid_notes bs) \<subseteq> set note_codes"
  by (auto simp: valid_notes_def channel_valid_iff)

lemma set_take_valid_notes: "set (take k (valid_notes bs)) \<subseteq> set note_codes"
  using set_take_subset [of k "valid_notes bs"] set_valid_notes [of bs] by blast

lemma playSelectedSong_split:
  assumes "0 \<le> songIndex st" "songIndex st < SONG_COUNT"
  shows "playSelectedSong st =
    (case songLoop (songData ! nat (songIndex st))
            ((printSongPlaying (st\<lparr>rotaryDisabled := 1\<rparr>))\<lparr>tempo := songTempos ! nat (songIndex st)\<rparr>) of
       None \<Rightarrow> None
     | Some st4 \<Rightarrow>
         Some ((printSelectSong (emit [SerialPrintln ''''] (st4\<lparr>songPlaying := 0\<rparr>)))\<lparr>rotaryDisabled := 0\<rparr>))"
  using assms
  by (simp add: playSelectedSong_def Let_def pgm_read_word_def printSongPlaying_def
      split: option.split)

lemma playSelectedSong_effect:
  assumes "0 \<le> songIndex st" "songIndex st < SONG_COUNT"
  shows "\<exists>st' k. playSelectedSong st = Some st' \<and>
     songPlaying st' = 0 \<and> rotaryDisabled st' = 0 \<and>
     tempo st' = songTempos ! nat (songIndex st) \<and> songIndex st' = songIndex st \<and>
     rotaryCount st' = rotaryCount st \<and> rotaryChanged st' = rotaryChanged st \<and>
     aFlag st' = aFlag st \<and> bFlag st' = bFlag st \<and> reading st' = reading st \<and>
     lcd_of (trace st') = lcd_of (trace st) @
       [LcdSetCursor 0 0, LcdPrint ''--- Playing  ---'',
        LcdSetCursor 0 0, LcdPrint ''Select a Song   ''] \<and>
     serial_of (trace st') = serial_of (trace st) @
       playback_out (take k (valid_notes (played (songData ! nat (songIndex st))))) \<and>
     (songPlaying st \<noteq> 0 \<and> Click \<notin> set (buttons st) \<longrightarrow>
        serial_of (trace st') = serial_of (trace st) @
          playback_out (valid_notes (played (songData ! nat (songIndex st)))))"
proof -
  define d where "d = songData ! nat (songIndex st)"
  define t where "t = songTempos ! nat (songIndex st)"
  define st3 where "st3 = (printSongPlaying (st\<lparr>rotaryDisabled := 1\<rparr>))\<lparr>tempo := t\<rparr>"
  have din: "d \<in> set songData" and tin: "t \<in> set songTempos"
    using assms by (simp_all add: d_def t_def)
  have e: "\<exists>dataVal \<in> set d. is_end dataVal"
    using din by (rule songData_has_end)
  have st3: "tempo st3 = t" "songIndex st3 = songIndex st" "rotaryDisabled st3 = 1"
    "rotaryCount st3 = rotaryCount st" "rotaryChanged st3 = rotaryChanged st"
    "aFlag st3 = aFlag st" "bFlag st3 = bFlag st" "reading st3 = reading st"
    "songPlaying st3 = songPlaying st" "buttons st3 = buttons st"
    "lcd_of (trace st3) = lcd_of (trace st) @ [LcdSetCursor 0 0, LcdPrint ''--- Playing  ---'']"
    "serial_of (trace st3) = serial_of (trace st)"
    by (simp_all add: st3_def printSongPlaying_def lcd_of_def serial_of_def)
  have tz: "ulong (tempo st3) \<noteq> 0"
    using tin by (simp add: st3 songTempos_ulong)
  from songLoop_Some [OF tz e] obtain st4 where l: "songLoop d st3 = Some st4" ..
  from keeps_songLoop [OF l] have k4: "keeps st3 st4" .
  from songLoop_serial [OF l] obtain k where
    s4: "serial_of (trace st4) = serial_of (trace st3) @ concat (map note_cmd (take k (valid_notes (played d))))" ..
  have nc: "serial_of (trace st4) = serial_of (trace st3) @ concat (map note_cmd (valid_notes (played d)))"
    if "songPlaying st \<noteq> 0 \<and> Click \<notin> set (buttons st)"
    using songLoop_no_click [of st3 d] that tz e l by (simp add: st3)
  define st' where "st' = (printSelectSong (emit [SerialPrintln ''''] (st4\<lparr>songPlaying := 0\<rparr>)))\<lparr>rotaryDisabled := 0\<rparr>"
  have p: "playSelectedSong st = Some st'"
    using l by (simp add: playSelectedSong_split [OF assms] st'_def st3_def d_def t_def)
  have f: "songPlaying st' = 0" "rotaryDisabled st' = 0" "tempo st' = tempo st4"
    "songIndex st' = songIndex st4" "rotaryCount st' = rotaryCount st4"
    "rotaryChanged st' = rotaryChanged st4" "aFlag st' = aFlag st4" "bFlag st' = bFlag st4"
    "reading st' = reading st4"
    "lcd_of (trace st') = lcd_of (trace st4) @ [LcdSetCursor 0 0, LcdPrint ''Select a Song   '']"
    "serial_of (trace st') = serial_of (trace st4) @ [SerialPrintln '''']"
    by (simp_all add: st'_def printSelectSong_def lcd_of_def serial_of_def)
  have g: "tempo st4 = t" "songIndex st4 = songIndex st" "rotaryCount st4 = rotaryCount st"
    "rotaryChanged st4 = rotaryChanged st" "aFlag st4 = aFlag st" "bFlag st4 = bFlag st"
    "reading st4 = reading st" "lcd_of (trace st4) = lcd_of (trace st3)"
    using k4 by (simp_all add: keeps_def st3)
  have "songPlaying st' = 0 \<and> rotaryDisabled st' = 0 \<and>
     tempo st' = t \<and> songIndex st' = songIndex st \<and>
     rotaryCount st' = rotaryCount st \<and> rotaryChanged st' = rotaryChanged st \<and>
     aFlag st' = aFlag st \<and> bFlag st' = bFlag st \<and> reading st' = reading st \<and>
     lcd_of (trace st') = lcd_of (trace st) @
       [LcdSetCursor 0 0, LcdPrint ''--- Playing  ---'',
        LcdSetCursor 0 0, LcdPrint ''Select a Song   ''] \<and>
     serial_of (trace st') = serial_of (trace st) @ playback_out (take k (valid_notes (played d))) \<and>
     (songPlaying st \<noteq> 0 \<and> Click \<notin> set (buttons st) \<longrightarrow>
        serial_of (trace st') = serial_of (trace st) @ playback_out (valid_notes (played d)))"
    using nc by (simp add: f g st3 s4 playback_out_def)
  with p show ?thesis
    unfolding d_def t_def by blast
qed

lemma printSelectedSong_effect:
  assumes "selection_ok st"
  shows "\<exists>st'. printSelectedSong st = Some st' \<and> songIndex st' = rotaryCount st \<and>
     rotaryCount st' = rotaryCount st \<and> songPlaying st' = songPlaying st \<and>
     rotaryChanged st' = 0 \<and> rotaryDisabled st' = 0 \<and>
     serial_of (trace st') = serial_of (trace st) \<and>
     lcd_of (trace st') = lcd_of (trace st) @ LcdSetCursor 0 1 #
        map LcdWrite (songTitles ! nat (rotaryCount st)) @
        replicate (16 - length (songTitles ! nat (rotaryCount st))) (LcdWrite CHR '' '')"
proof -
  have "nat (rotaryCount st) < length songTitles"
    using assms by (auto simp: selection_ok_def)
  then have "songTitles ! nat (rotaryCount st) \<in> set songTitles"
    by (rule nth_mem)
  then have "length (songTitles ! nat (rotaryCount st)) \<le> 16"
    by (auto simp: songTitles_def songTitle0_def songTitle1_def songTitle2_def songTitle3_def
      songTitle4_def songTitle5_def songTitle6_def songTitle7_def songTitle8_def songTitle9_def
      songTitle10_def songTitle11_def)
  then show ?thesis
    using assms
    by (simp add: printSelectedSong_def Let_def pgm_read_word_def selection_ok_def
        lcdPrintProgStr_def serial_of_def lcd_of_def)
qed

lemma serial_history_extend:
  "serial_history st plays \<Longrightarrow> set ns \<subseteq> set note_codes \<Longrightarrow>
   serial_of (trace st') = serial_of (trace st) @ playback_out ns \<Longrightarrow>
   serial_history st' (plays @ [ns])"
  by (simp add: serial_history_def)

lemma sketch_ok_playSelectedSong:
  assumes "sketch_ok st"
  shows "\<exists>st'. playSelectedSong st = Some st' \<and> sketch_ok st'"
proof -
  from assms have r: "0 \<le> songIndex st" "songIndex st < SONG_COUNT" and s: "selection_ok st"
    by (simp_all add: sketch_ok_def)
  from assms obtain plays where h: "serial_history st plays"
    by (auto simp: sketch_ok_def)
  from playSelectedSong_effect [OF r] obtain st' k where
    p: "playSelectedSong st = Some st'" and i: "songIndex st' = songIndex st"
    and c: "rotaryCount st' = rotaryCount st"
    and o: "serial_of (trace st') = serial_of (trace st) @
       playback_out (take k (valid_notes (played (songData ! nat (songIndex st)))))"
    by blast
  from serial_history_extend [OF h set_take_valid_notes o]
  have "\<exists>plays. serial_history st' plays" ..
  with r s i c have "sketch_ok st'"
    by (simp add: sketch_ok_def selection_ok_def)
  with p show ?thesis by blast
qed

lemma sketch_ok_printSelectedSong:
  assumes "sketch_ok st"
  shows "\<exists>st'. printSelectedSong st = Some st' \<and> sketch_ok st'"
proof -
  from assms have s: "selection_ok st"
    by (simp add: sketch_ok_def)
  from assms obtain plays where h: "serial_history st plays"
    by (auto simp: sketch_ok_def)
  from printSelectedSong_effect [OF s] obtain st' where
    p: "printSelectedSong st = Some st'" and i: "songIndex st' = rotaryCount st"
    and c: "rotaryCount st' = rotaryCount st"
    and o: "serial_of (trace st') = serial_of (trace st)"
    by blast
  from h o have "serial_history st' plays"
    by (simp add: serial_history_def)
  then have "\<exists>plays. serial_history st' plays" ..
  with s i c have "sketch_ok st'"
    by (simp add: sketch_ok_def selection_ok_def)
  with p show ?thesis by blast
qed

lemma sketch_ok_tick_delay:
  assumes "sketch_ok st"
  shows "sketch_ok (delay ms (btnRot_tick st))"
proof -
  from assms have "selection_ok (btnRot_tick st)"
    by (simp add: sketch_ok_def selection_ok_def)
  then have "selection_ok (delay ms (btnRot_tick st))"
    by (rule delay_selection_ok)
  moreover have "serial_history (delay ms (btnRot_tick st)) plays" if "serial_history st plays" for plays
    using that by (simp add: serial_history_def serial_of_def)
  ultimately show ?thesis
    using assms by (auto simp: sketch_ok_def)
qed

lemma sketch_ok_loop:
  assumes "sketch_ok st"
  shows "\<exists>st'. loop st = Some st' \<and> sketch_ok st'"
proof -
  obtain st1 where 1: "(if songPlaying st \<noteq> 0 then playSelectedSong st else Some st) = Some st1"
    and ok1: "sketch_ok st1"
    using sketch_ok_playSelectedSong [OF assms] assms by (cases "songPlaying st = 0") auto
  obtain st2 where 2: "(if rotaryChanged st1 \<noteq> 0 then printSelectedSong st1 else Some st1) = Some st2"
    and ok2: "sketch_ok st2"
    using sketch_ok_printSelectedSong [OF ok1] ok1 by (cases "rotaryChanged st1 = 0") auto
  have "loop st = Some (delay 100 (btnRot_tick st2))"
    by (simp only: loop_def 1 2 option.case)
  with sketch_ok_tick_delay [OF ok2] show ?thesis by blast
qed

lemma sketch_ok_run: "sketch_ok st \<Longrightarrow> \<exists>st'. run n st = Some st' \<and> sketch_ok st'"
proof (induction n arbitrary: st)
  case 0
  then show ?case by simp
next
  case (Suc n)
  from sketch_ok_loop [OF Suc.prems] obtain st1 where "loop st = Some st1" "sketch_ok st1"
    by blast
  with Suc.IH [of st1] show ?case by simp
qed

lemma sketch_ok_setup: "sketch_ok (setup_sketch (reset bs qs))"
proof -
  have "serial_history (setup_sketch (reset bs qs)) []"
    by (simp add: serial_history_def setup_sketch_def initializeRotaryEncoder_def
        initizlizeUnusedPins_def pinOutLow_def initializeLcd_def printSelectSong_def
        reset_def Let_def serial_of_def)
  then have "\<exists>plays. serial_history (setup_sketch (reset bs qs)) plays" ..
  moreover have "rotaryCount (setup_sketch (reset bs qs)) = 0" "songIndex (setup_sketch (reset bs qs)) = 0"
    by (simp_all add: setup_sketch_def initializeRotaryEncoder_def
        initizlizeUnusedPins_def pinOutLow_def initializeLcd_def printSelectSong_def
        reset_def Let_def)
  ultimately show ?thesis
    by (simp add: sketch_ok_def selection_ok_def)
qed

subsection \<open>Further facts for the claims\<close>

lemma waited_append_delays: "waited (tr @ replicate n (Delay ms)) = waited tr + n * ms"
proof (induction tr rule: waited.induct)
  case 1
  show ?case by (induction n) simp_all
qed simp_all

lemma one_hot: "ch \<le> 7 \<Longrightarrow> bit (push_bit ch 1 :: byte) i \<longleftrightarrow> i = ch"
  by (auto simp: bit_exp_iff possible_bit_word)

lemma channel_unat_le: "code \<in> set note_codes \<Longrightarrow> unat (noteToMotorShieldChannel code) \<le> 7"
  by (auto simp: note_codes_def noteToMotorShieldChannel_def)

lemma processSongData_zero:
  "processSongData dataVal st = Some (0, st1) \<Longrightarrow> is_end dataVal \<or> songPlaying st = 0"
  by (cases "is_end dataVal \<or> songPlaying st = 0"; cases "0x80 \<le> dataVal")
     (auto simp: processSongData_note processSongData_pause)

lemma processSongData_result:
  "processSongData dataVal st = Some (r, st1) \<Longrightarrow> r = 0 \<or> r = 1"
  by (cases "is_end dataVal \<or> songPlaying st = 0"; cases "0x80 \<le> dataVal")
     (auto simp: processSongData_note processSongData_pause processSongData_stop)

lemma note_cmd_one_hot:
assumes "code \<in> set note_codes"
  shows "\<exists>ch. ch \<le> 7 \<and> noteToMotorShieldChannel code = of_nat ch \<and>
     note_cmd code = cmd_frame 0 (push_bit ch 1) \<and>
     (\<forall>i. bit (push_bit ch 1 :: byte) i \<longleftrightarrow> i = ch)"
proof -
  let ?ch = "unat (noteToMotorShieldChannel code)"
  have "?ch \<le> 7"
    using assms by (rule channel_unat_le)
  moreover have "noteToMotorShieldChannel code = of_nat ?ch"
    by simp
  moreover have "note_cmd code = cmd_frame 0 (push_bit ?ch 1)"
    by (simp add: note_cmd_def slaveAddr_def)
  moreover have "\<forall>i. bit (push_bit ?ch 1 :: byte) i \<longleftrightarrow> i = ?ch"
    using \<open>?ch \<le> 7\<close> one_hot by blast
  ultimately show ?thesis by blast
qed

lemma playNote_sends:
  "playNote dataVal st = st \<or>
   (\<exists>ch \<le> 7. playNote dataVal st = sendMotorShieldCommand 0 (push_bit ch 1) st)"
proof (cases "dataVal \<in> set note_codes")
  case True
  from note_cmd_one_hot [OF True] obtain ch where "ch \<le> 7"
    "note_cmd dataVal = cmd_frame 0 (push_bit ch 1)" by blast
  with True have "ch \<le> 7 \<and> playNote dataVal st = sendMotorShieldCommand 0 (push_bit ch 1) st"
    by (simp add: playNote_cases sendMotorShieldCommand_emit)
  then show ?thesis by blast
next
  case False
  then show ?thesis by (simp add: playNote_cases)
qed

subsection \<open>Playback that is not cancelled\<close>

lemma pause_loop_quiet:
"songPlaying st \<noteq> 0 \<Longrightarrow> Click \<notin> set (take (nat (dticks - i)) (buttons st)) \<Longrightarrow>
   trace (pause_loop i dticks st) = trace st @ replicate (nat (dticks - i)) (Delay 20) \<and>
   songPlaying (pause_loop i dticks st) = songPlaying st \<and>
   buttons (pause_loop i dticks st) = drop (nat (dticks - i)) (buttons st)"
proof (induction i dticks st rule: pause_loop.induct)
  case (1 i dticks st)
  show ?case
  proof (cases "i < dticks")
    case True
    let ?st2 = "delay 20 (btnRot_tick st)"
    define k where "k = nat (dticks - (i + 1))"
    have k: "nat (dticks - i) = Suc k"
      using True by (simp add: k_def)
    from "1.prems"(2) have q: "Click \<notin> set (take (Suc k) (buttons st))"
      unfolding k .
    have hd: "\<not> (buttons st \<noteq> [] \<and> hd (buttons st) = Click)"
      using q by (cases "buttons st") auto
    have sp': "songPlaying (btnRot_tick st) = songPlaying st"
      using hd by (simp add: btnRot_tick_songPlaying)
    then have sp: "songPlaying ?st2 = songPlaying st"
      by simp
    have bs: "buttons ?st2 = tl (buttons st)" and tr: "trace ?st2 = trace st @ [Delay 20]"
      by simp_all
    have nc: "Click \<notin> set (take (nat (dticks - (i + 1))) (buttons ?st2))"
      using q unfolding k_def [symmetric] bs by (cases "buttons st") auto
    have sp0: "songPlaying ?st2 \<noteq> 0"
      using sp "1.prems"(1) by simp
    have ih: "trace (pause_loop (i + 1) dticks ?st2) = trace ?st2 @ replicate k (Delay 20) \<and>
       songPlaying (pause_loop (i + 1) dticks ?st2) = songPlaying ?st2 \<and>
       buttons (pause_loop (i + 1) dticks ?st2) = drop k (buttons ?st2)"
      unfolding k_def using "1.IH" [OF True refl refl _ sp0 nc] sp0 by simp
    have e: "pause_loop i dticks st = pause_loop (i + 1) dticks ?st2"
      using True sp0 by (simp add: pause_loop.simps [of i dticks st] Let_def)
    have "trace (pause_loop i dticks st) = trace st @ replicate (Suc k) (Delay 20) \<and>
       songPlaying (pause_loop i dticks st) = songPlaying st \<and>
       buttons (pause_loop i dticks st) = drop (Suc k) (buttons st)"
      using ih by (simp add: e sp' drop_Suc)
    then show ?thesis
      by (simp only: k)
  next
    case False
    then show ?thesis by (simp add: pause_loop.simps [of i dticks st])
  qed
qed

lemma pause_quiet:
  assumes "songPlaying st \<noteq> 0" and "delayTicks num16ths (tempo st) = Some dticks"
    and "Click \<notin> set (take (nat dticks) (buttons st))"
  shows "\<exists>st'. pause num16ths st = Some st' \<and>
     trace st' = trace st @ replicate (nat dticks) (Delay 20) \<and>
     songPlaying st' = songPlaying st \<and> tempo st' = tempo st \<and>
     buttons st' = drop (nat dticks) (buttons st) \<and>
     serial_of (trace st') = serial_of (trace st)"
proof -
  have p: "pause num16ths st = Some (pause_loop 0 dticks st)"
    using assms(2) by (simp add: pause_def)
  from pause_loop_quiet [of st dticks 0] assms(1,3)
  have "trace (pause_loop 0 dticks st) = trace st @ replicate (nat dticks) (Delay 20) \<and>
     songPlaying (pause_loop 0 dticks st) = songPlaying st \<and>
     buttons (pause_loop 0 dticks st) = drop (nat dticks) (buttons st)"
    by simp
  moreover from keeps_pause [OF p] have "tempo (pause_loop 0 dticks st) = tempo st"
    by (simp add: keeps_def)
  moreover from serial_pause [OF p]
  have "serial_of (trace (pause_loop 0 dticks st)) = serial_of (trace st)" .
  ultimately show ?thesis using p by simp
qed





text \<open>The definitions that evaluate \<open>rotation_scenario\<close>.\<close>

lemmas scenario_defs = rotation_scenario_def reset_def
  playSelectedSong_def printSelectSong_def printSongPlaying_def pgm_read_word_def
  songTempos_def songData_def songData0_def
  processSongData_def playNote_def noteToMotorShieldChannel_def sendMotorShieldCommand_def
  slaveAddr_def pause_def delayTicks_def ulong_def int16_def btnRot_tick_def rotaryClick_def
  rotaryLongPress_def delay_def PinA_def PinB_def rotaryUp_def rotaryDown_def rotaryMax_def
  emit_def Let_def

section \<open>The properties of the specification\<close>

text \<open>
  C6.  Each of the eight note codes 0x80 (C), 0x82 (D), 0x84 (E), 0x85 (F), 0x87 (G),
  0x89 (A), 0x8B (B), 0x8C (high C) decodes to a Note with its channel: the codec of the
  specification yields \<open>Note\<close> of the channel \<open>noteToMotorShieldChannel\<close> gives, and
  \<open>processSongData\<close> does what the specification says for that event, for a playing song
  one command with the bit of that channel.  The mapping is a bijection from the eight
  codes onto the channels 0 to 7, code by code the channels 0, 1, ..., 7.
\<close>

theorem note_codes_bijection:
  "note_codes = [0x80, 0x82, 0x84, 0x85, 0x87, 0x89, 0x8B, 0x8C] \<and>
   map noteToMotorShieldChannel note_codes = [0, 1, 2, 3, 4, 5, 6, 7] \<and>
   bij_betw noteToMotorShieldChannel (set note_codes) {ch. ch \<le> 7} \<and>
   (code \<in> set note_codes \<longrightarrow>
      spec_decode code = Note (noteToMotorShieldChannel code) \<and>
      processSongData code st = spec_perform (Note (noteToMotorShieldChannel code)) st \<and>
      (songPlaying st \<noteq> 0 \<longrightarrow>
         processSongData code st =
           Some (1, sendMotorShieldCommand slaveAddr
                      (push_bit (unat (noteToMotorShieldChannel code)) 1) st)))"
proof -
  have codes: "note_codes = [0x80, 0x82, 0x84, 0x85, 0x87, 0x89, 0x8B, 0x8C]"
    by (simp add: note_codes_def)
  have chans: "map noteToMotorShieldChannel note_codes = [0, 1, 2, 3, 4, 5, 6, 7]"
    by (simp add: note_codes_def noteToMotorShieldChannel_def)
  have bij: "bij_betw noteToMotorShieldChannel (set note_codes) {ch. ch \<le> 7}"
    unfolding bij_betw_def inj_on_def byte_le7
    by (auto simp add: noteToMotorShieldChannel_def note_codes_def)
  have dec: "spec_decode code = Note (noteToMotorShieldChannel code)"
    if "code \<in> set note_codes"
    using that by (auto simp: note_codes_def spec_decode_def)
  have act: "processSongData code st = spec_perform (Note (noteToMotorShieldChannel code)) st"
    if "code \<in> set note_codes"
    using dec [OF that] by (simp add: processSongData_refines)
  have cmd: "processSongData code st =
      Some (1, sendMotorShieldCommand slaveAddr
                 (push_bit (unat (noteToMotorShieldChannel code)) 1) st)"
    if "code \<in> set note_codes" "songPlaying st \<noteq> 0"
    using that channel_valid_iff [of code]
    by (simp add: act sendMotorShieldCommand_emit slaveAddr_def)
  show ?thesis
    using codes chans bij dec act cmd by simp
qed

theorem note_codes_bijection_witness:
  "note_e \<in> set note_codes \<and> spec_decode note_e = Note 2 \<and>
   songPlaying ((reset [] [])\<lparr>songPlaying := 1\<rparr>) \<noteq> 0 \<and>
   processSongData note_e ((reset [] [])\<lparr>songPlaying := 1\<rparr>) =
     Some (1, sendMotorShieldCommand 0 4 ((reset [] [])\<lparr>songPlaying := 1\<rparr>))"
proof -
  have m: "note_e \<in> set note_codes"
    by (simp add: note_codes_def)
  have c: "noteToMotorShieldChannel note_e = 2"
    by (simp add: noteToMotorShieldChannel_def)
  from note_codes_bijection [of note_e "(reset [] [])\<lparr>songPlaying := 1\<rparr>"] m show ?thesis
    by (simp add: c slaveAddr_def sendMotorShieldCommand_emit)
qed

text \<open>
  C7.  A byte of the note range 0x80 to 0x8C that is none of the eight note codes is
  mapped by \<open>noteToMotorShieldChannel\<close> to the sentinel 0x7F; \<open>playNote\<close> then sends
  nothing and changes nothing; \<open>processSongData\<close> returns 1 for a playing song, and the
  playback loop goes on: the byte after it is read and handed to \<open>processSongData\<close> in
  the unchanged state, and the loop ends or goes on as that call says.  So a note code that
  follows the unmapped byte is sent before the terminator ends the song.
\<close>

theorem unmapped_note_skipped:
  assumes "0x80 \<le> dataVal" and "dataVal \<le> 0x8C" and "dataVal \<notin> set note_codes"
  shows "noteToMotorShieldChannel dataVal = 0x7F \<and> playNote dataVal st = st \<and>
         (songPlaying st \<noteq> 0 \<longrightarrow>
            processSongData dataVal st = Some (1, st) \<and>
            songLoop (dataVal # songDataPtr) st = songLoop songDataPtr st \<and>
            songLoop (dataVal # nextVal # songDataPtr) st =
              (case processSongData nextVal st of
                 None \<Rightarrow> None
               | Some (r, st1) \<Rightarrow> if r \<noteq> 0 then songLoop songDataPtr st1 else Some st1) \<and>
            (code \<in> set note_codes \<longrightarrow>
               songLoop (dataVal # code # 0 # songDataPtr) st =
                 Some (sendMotorShieldCommand slaveAddr
                         (push_bit (unat (noteToMotorShieldChannel code)) 1) st) \<and>
               serial_of (trace (sendMotorShieldCommand slaveAddr
                         (push_bit (unat (noteToMotorShieldChannel code)) 1) st)) =
                 serial_of (trace st) @ note_cmd code \<and>
               note_cmd code \<noteq> []))"
proof -
  from assms(1) have hi: "\<not> dataVal \<le> 0x7F" "dataVal \<noteq> 0"
    by (auto simp: word_le_nat_alt)
  from assms(3) have ch: "noteToMotorShieldChannel dataVal = 0x7F"
    by (simp add: noteToMotorShieldChannel_def note_codes_def)
  have pn: "playNote dataVal st = st"
    by (simp add: playNote_eq ch)
  have ps: "processSongData dataVal st = Some (1, st)" if "songPlaying st \<noteq> 0"
    using that hi assms(2) by (simp add: processSongData_refines spec_decode_def ch)
  have nx: "songLoop (dataVal # code # 0 # songDataPtr) st =
      Some (sendMotorShieldCommand slaveAddr
              (push_bit (unat (noteToMotorShieldChannel code)) 1) st)"
    if sp: "songPlaying st \<noteq> 0" and c: "code \<in> set note_codes"
  proof -
    from c have "\<not> is_end code" "0x80 \<le> code"
      by (auto simp: note_codes_def is_end_def)
    with sp have "processSongData code st = Some (1, playNote code st)"
      by (simp add: processSongData_note)
    moreover have "processSongData 0 (playNote code st) = Some (0, playNote code st)"
      by (simp add: processSongData_stop is_end_def)
    moreover have "playNote code st = sendMotorShieldCommand slaveAddr
              (push_bit (unat (noteToMotorShieldChannel code)) 1) st"
      using c by (simp add: playNote_cases sendMotorShieldCommand_emit note_cmd_def)
    ultimately show ?thesis
      using sp by (simp add: ps)
  qed
  have se: "serial_of (trace (sendMotorShieldCommand slaveAddr
                         (push_bit (unat (noteToMotorShieldChannel code)) 1) st)) =
                 serial_of (trace st) @ note_cmd code"
    by (simp add: sendMotorShieldCommand_emit note_cmd_def)
  have ne: "note_cmd code \<noteq> []"
    by (simp add: note_cmd_def cmd_frame_def)
  show ?thesis
    using ch pn ps nx se ne by simp
qed

theorem unmapped_note_skipped_witness:
  "(0x80 :: byte) \<le> 0x81 \<and> (0x81 :: byte) \<le> 0x8C \<and> 0x81 \<notin> set note_codes \<and>
   songPlaying ((reset [] [])\<lparr>songPlaying := 1\<rparr>) \<noteq> 0 \<and> note_c \<in> set note_codes \<and>
   noteToMotorShieldChannel 0x81 = 0x7F \<and>
   playNote 0x81 ((reset [] [])\<lparr>songPlaying := 1\<rparr>) = (reset [] [])\<lparr>songPlaying := 1\<rparr> \<and>
   songLoop [0x81, note_c, 0] ((reset [] [])\<lparr>songPlaying := 1\<rparr>) =
     Some (sendMotorShieldCommand 0 1 ((reset [] [])\<lparr>songPlaying := 1\<rparr>)) \<and>
   sendMotorShieldCommand 0 1 ((reset [] [])\<lparr>songPlaying := 1\<rparr>) \<noteq>
     (reset [] [])\<lparr>songPlaying := 1\<rparr> \<and>
   trace (sendMotorShieldCommand 0 1 ((reset [] [])\<lparr>songPlaying := 1\<rparr>)) =
     [SerialPrint ''<'', SerialPrint ''0'', SerialPrintHex 0, SerialPrint ''0'',
      SerialPrintHex 1, SerialPrint ''>'']"
proof -
  let ?st = "(reset [] [])\<lparr>songPlaying := 1\<rparr>"
  have a: "(0x80 :: byte) \<le> 0x81" "(0x81 :: byte) \<le> 0x8C" "0x81 \<notin> set note_codes"
    by (simp_all add: note_codes_def)
  have b: "songPlaying ?st \<noteq> 0" "note_c \<in> set note_codes"
    "noteToMotorShieldChannel note_c = 0"
    by (simp_all add: note_codes_def noteToMotorShieldChannel_def)
  have t: "trace (sendMotorShieldCommand 0 1 ?st) =
     [SerialPrint ''<'', SerialPrint ''0'', SerialPrintHex 0, SerialPrint ''0'',
      SerialPrintHex 1, SerialPrint ''>'']"
    by (simp add: sendMotorShieldCommand_emit cmd_frame_def reset_def)
  have "trace ?st = []"
    by (simp add: reset_def)
  with t have d: "sendMotorShieldCommand 0 1 ?st \<noteq> ?st"
    by auto
  from unmapped_note_skipped [OF a, where st = ?st and songDataPtr = "[]" and code = note_c] b
  have "noteToMotorShieldChannel 0x81 = 0x7F" "playNote 0x81 ?st = ?st"
    "songLoop [0x81, note_c, 0] ?st = Some (sendMotorShieldCommand 0 1 ?st)"
    by (simp_all add: slaveAddr_def del: songLoop.simps)
  with a b t d show ?thesis by simp
qed

text \<open>
  C2.  The decoder is total on the bytes 0x00 to 0xFF and partitions them: a byte from
  0x01 to 0x7F is a Pause of that duration, 0x00 is EndOfSong, every byte above the
  highest note code 0x8C is EndOfSong, and the bytes between are notes.  The source has no
  decoder of its own; \<open>processSongData\<close> acts as the specification's decoder followed by
  the specification's action, on every byte and in every state, and it fails on no byte
  as long as the tempo is not zero.
\<close>

theorem decoder_total_partition:
  "processSongData dataVal st = spec_perform (spec_decode dataVal) st \<and>
   (0x01 \<le> dataVal \<and> dataVal \<le> 0x7F \<longrightarrow> spec_decode dataVal = Pause dataVal) \<and>
   spec_decode 0x00 = EndOfSong \<and>
   (dataVal > 0x8C \<longrightarrow> spec_decode dataVal = EndOfSong) \<and>
   (0x80 \<le> dataVal \<and> dataVal \<le> 0x8C \<longrightarrow>
      spec_decode dataVal = Note (noteToMotorShieldChannel dataVal)) \<and>
   (0x01 \<le> dataVal \<and> dataVal \<le> 0x7F \<and> songPlaying st \<noteq> 0 \<longrightarrow>
      processSongData dataVal st = map_option (Pair 1) (pause dataVal st)) \<and>
   (dataVal = 0x00 \<or> dataVal > 0x8C \<longrightarrow> processSongData dataVal st = Some (0, st)) \<and>
   (ulong (tempo st) \<noteq> 0 \<longrightarrow> processSongData dataVal st \<noteq> None)"
proof -
  have p: "spec_decode dataVal = Pause dataVal" if "0x01 \<le> dataVal \<and> dataVal \<le> 0x7F"
    using that by (simp add: spec_decode_pause)
  have n: "spec_decode dataVal = Note (noteToMotorShieldChannel dataVal)"
    if "0x80 \<le> dataVal \<and> dataVal \<le> 0x8C"
    using that by (auto simp: spec_decode_def word_le_nat_alt)
  have pa: "processSongData dataVal st = map_option (Pair 1) (pause dataVal st)"
    if "0x01 \<le> dataVal \<and> dataVal \<le> 0x7F \<and> songPlaying st \<noteq> 0"
    using that by (simp add: processSongData_refines spec_decode_pause)
  have e: "processSongData dataVal st = Some (0, st)" if "dataVal = 0x00 \<or> dataVal > 0x8C"
    using that by (auto simp: processSongData_def)
  have t: "processSongData dataVal st \<noteq> None" if "ulong (tempo st) \<noteq> 0"
    using that
    by (cases "spec_decode dataVal") (auto simp: processSongData_refines pause_def delayTicks_def)
  have d: "spec_decode dataVal = EndOfSong" if "dataVal > 0x8C"
    using that by (rule spec_decode_end)
  show ?thesis
    by (intro conjI impI processSongData_refines p n pa e t d spec_decode_end(1)) simp_all
qed

theorem decoder_total_partition_witness:
  "(0x01 :: byte) \<le> 0x04 \<and> (0x04 :: byte) \<le> 0x7F \<and> spec_decode 0x04 = Pause 0x04 \<and>
   songPlaying ((reset [] [])\<lparr>songPlaying := 1, tempo := 150\<rparr>) \<noteq> 0 \<and>
   ulong (tempo ((reset [] [])\<lparr>songPlaying := 1, tempo := 150\<rparr>)) \<noteq> 0 \<and>
   processSongData 0x04 ((reset [] [])\<lparr>songPlaying := 1, tempo := 150\<rparr>) \<noteq> None \<and>
   (0xF0 :: byte) > 0x8C \<and> spec_decode 0xF0 = EndOfSong \<and>
   processSongData 0xF0 ((reset [] [])\<lparr>songPlaying := 1, tempo := 150\<rparr>) =
     Some (0, (reset [] [])\<lparr>songPlaying := 1, tempo := 150\<rparr>) \<and>
   (0x80 :: byte) \<le> 0x8C \<and> (0x8C :: byte) \<le> 0x8C \<and> spec_decode 0x8C = Note 7"
proof -
  have a: "(0x01 :: byte) \<le> 0x04" "(0x04 :: byte) \<le> 0x7F" "(0xF0 :: byte) > 0x8C"
    "(0x80 :: byte) \<le> 0x8C" "(0x8C :: byte) \<le> 0x8C"
    by simp_all
  have c: "noteToMotorShieldChannel 0x8C = 7"
    by (simp add: noteToMotorShieldChannel_def)
  have t: "ulong (tempo ((reset [] [])\<lparr>songPlaying := 1, tempo := 150\<rparr>)) \<noteq> 0"
    "songPlaying ((reset [] [])\<lparr>songPlaying := 1, tempo := 150\<rparr>) \<noteq> 0"
    by (simp_all add: ulong_def)
  note w4 = decoder_total_partition [of "0x04" "(reset [] [])\<lparr>songPlaying := 1, tempo := 150\<rparr>"]
  note wF = decoder_total_partition [of "0xF0" "(reset [] [])\<lparr>songPlaying := 1, tempo := 150\<rparr>"]
  note wC = decoder_total_partition [of "0x8C" "(reset [] [])\<lparr>songPlaying := 1, tempo := 150\<rparr>"]
  from w4 a have d4: "spec_decode 0x04 = Pause 0x04"
    by simp
  from w4 t(1) have p4: "processSongData 0x04 ((reset [] [])\<lparr>songPlaying := 1, tempo := 150\<rparr>) \<noteq> None"
    by (elim conjE) (erule mp)
  from wF a have dF: "spec_decode 0xF0 = EndOfSong"
    "processSongData 0xF0 ((reset [] [])\<lparr>songPlaying := 1, tempo := 150\<rparr>) =
     Some (0, (reset [] [])\<lparr>songPlaying := 1, tempo := 150\<rparr>)"
    by simp_all
  from wC a c have dC: "spec_decode 0x8C = Note 7"
    by simp
  from a t d4 p4 dF dC show ?thesis
    by (intro conjI)
qed



text \<open>
  C9.  The playback engine terminates on every song of the catalog: for every song index
  inside the catalog and every state, whatever buttons and interrupts arrive,
  \<open>playSelectedSong\<close> returns a state, and every catalog sequence contains an end-of-song
  byte.  The loop returns on every sequence that contains an end-of-song byte, and
  \<open>processSongData\<close> returns 0 only at an end-of-song byte (0 or above 0x8C) or when the
  playback flag is cleared.  (All functions of the model are total; \<open>None\<close> stands for
  reading outside the catalog or dividing by a zero tempo, which does not happen here.)
\<close>

theorem playback_terminates:
  "(0 \<le> songIndex st \<and> songIndex st < SONG_COUNT \<longrightarrow>
      (\<exists>st'. playSelectedSong st = Some st' \<and> songPlaying st' = 0) \<and>
      (\<exists>dataVal \<in> set (songData ! nat (songIndex st)). is_end dataVal)) \<and>
   (ulong (tempo st) \<noteq> 0 \<and> (\<exists>dataVal \<in> set songDataPtr. is_end dataVal) \<longrightarrow>
      (\<exists>st'. songLoop songDataPtr st = Some st')) \<and>
   (processSongData dataVal st = Some (r, st1) \<longrightarrow>
      (r = 0 \<or> r = 1) \<and> (r = 0 \<longrightarrow> is_end dataVal \<or> songPlaying st = 0))"
proof -
  have a: "(\<exists>st'. playSelectedSong st = Some st' \<and> songPlaying st' = 0) \<and>
      (\<exists>dataVal \<in> set (songData ! nat (songIndex st)). is_end dataVal)"
    if r: "0 \<le> songIndex st \<and> songIndex st < SONG_COUNT"
  proof -
    from r have "nat (songIndex st) < length songData" by auto
    then have "songData ! nat (songIndex st) \<in> set songData" by (rule nth_mem)
    then have "\<exists>dataVal \<in> set (songData ! nat (songIndex st)). is_end dataVal"
      by (rule songData_has_end)
    moreover from r playSelectedSong_effect [of st]
    have "\<exists>st'. playSelectedSong st = Some st' \<and> songPlaying st' = 0" by blast
    ultimately show ?thesis by simp
  qed
  have b: "\<exists>st'. songLoop songDataPtr st = Some st'"
    if "ulong (tempo st) \<noteq> 0 \<and> (\<exists>dataVal \<in> set songDataPtr. is_end dataVal)"
    using that songLoop_Some [of st songDataPtr] by blast
  have c: "(r = 0 \<or> r = 1) \<and> (r = 0 \<longrightarrow> is_end dataVal \<or> songPlaying st = 0)"
    if "processSongData dataVal st = Some (r, st1)"
    using that processSongData_zero [of dataVal st st1] processSongData_result [of dataVal st r st1]
    by blast
  from a b c show ?thesis by blast
qed

theorem playback_terminates_witness:
  "0 \<le> songIndex ((reset [Click] [])\<lparr>songPlaying := 1, songIndex := 8\<rparr>) \<and>
   songIndex ((reset [Click] [])\<lparr>songPlaying := 1, songIndex := 8\<rparr>) < SONG_COUNT \<and>
   (\<exists>st'. playSelectedSong ((reset [Click] [])\<lparr>songPlaying := 1, songIndex := 8\<rparr>) = Some st' \<and>
      songPlaying st' = 0) \<and>
   (\<exists>dataVal \<in> set (songData ! 8). is_end dataVal)"
  using playback_terminates [of "(reset [Click] [])\<lparr>songPlaying := 1, songIndex := 8\<rparr>"]
  by simp

text \<open>
  C3, as stated, fails.  \<open>playSelectedSong\<close> sets \<open>rotaryDisabled\<close> in its first
  statement and clears it in its last, and \<open>PinA\<close> and \<open>PinB\<close> return at once while it
  is set.  In \<open>rotation_scenario\<close> a full clockwise detent (the edge on pin B, then the
  detent on pin A) arrives during the first tick of the first pause of ``Scale'': the
  interrupts are served, yet selection index, changed flag and detent flag are untouched
  when playback returns.  The same two interrupts in selection mode move the index to 1.
\<close>

theorem rotation_during_playback_counterexample:
  "map_option rotaryCount (playSelectedSong rotation_scenario) = Some 0 \<and>
   map_option rotaryChanged (playSelectedSong rotation_scenario) = Some 0 \<and>
   map_option aFlag (playSelectedSong rotation_scenario) = Some 0 \<and>
   map_option irqs (playSelectedSong rotation_scenario) = Some [] \<and>
   rotaryCount (delay 20 rotation_scenario) = 1 \<and>
   rotaryChanged (delay 20 rotation_scenario) = 1"
  by (simp add: scenario_defs pause_loop.simps [of 0] pause_loop.simps [of 1])

text \<open>
  C3, amended.  Rotation events that arrive while a song is playing are discarded: while
  \<open>rotaryDisabled\<close> is set the interrupt handlers leave the state as it is, and after a
  playback the selection index, its changed flag, the detent flags and the song index are
  what they were before it, whatever interrupts arrived; the interrupt gate is open again
  on return.  Rotation is recorded, and marked for display, only while the gate is open.
\<close>

theorem rotation_ignored_during_playback:
  "(rotaryDisabled st \<noteq> 0 \<longrightarrow> PinA PIND st = st \<and> PinB PIND st = st) \<and>
   (0 \<le> songIndex st \<and> songIndex st < SONG_COUNT \<longrightarrow>
      (\<exists>st'. playSelectedSong st = Some st' \<and>
         rotaryCount st' = rotaryCount st \<and> rotaryChanged st' = rotaryChanged st \<and>
         aFlag st' = aFlag st \<and> bFlag st' = bFlag st \<and> reading st' = reading st \<and>
         songIndex st' = songIndex st \<and> rotaryDisabled st' = 0)) \<and>
   (rotaryDisabled st = 0 \<and> aFlag st \<noteq> 0 \<longrightarrow>
      rotaryCount (PinA 0x0C st) = rotaryCount (rotaryUp st) \<and>
      rotaryChanged (PinA 0x0C st) = 1) \<and>
   (rotaryDisabled st = 0 \<and> bFlag st \<noteq> 0 \<longrightarrow>
      rotaryCount (PinB 0x0C st) = rotaryCount (rotaryDown st) \<and>
      rotaryChanged (PinB 0x0C st) = 1)"
proof -
  have a: "PinA PIND st = st \<and> PinB PIND st = st" if "rotaryDisabled st \<noteq> 0"
    using that by (simp add: PinA_def PinB_def)
  have b: "\<exists>st'. playSelectedSong st = Some st' \<and>
         rotaryCount st' = rotaryCount st \<and> rotaryChanged st' = rotaryChanged st \<and>
         aFlag st' = aFlag st \<and> bFlag st' = bFlag st \<and> reading st' = reading st \<and>
         songIndex st' = songIndex st \<and> rotaryDisabled st' = 0"
    if "0 \<le> songIndex st \<and> songIndex st < SONG_COUNT"
    using that playSelectedSong_effect [of st] by blast
  have c: "rotaryCount (PinA 0x0C st) = rotaryCount (rotaryUp st) \<and>
      rotaryChanged (PinA 0x0C st) = 1" if "rotaryDisabled st = 0 \<and> aFlag st \<noteq> 0"
    using that by (simp add: PinA_def rotaryUp_def Let_def)
  have d: "rotaryCount (PinB 0x0C st) = rotaryCount (rotaryDown st) \<and>
      rotaryChanged (PinB 0x0C st) = 1" if "rotaryDisabled st = 0 \<and> bFlag st \<noteq> 0"
    using that by (simp add: PinB_def rotaryDown_def Let_def)
  from a b c d show ?thesis by blast
qed

theorem rotation_ignored_during_playback_witness:
  "rotaryDisabled (rotation_scenario\<lparr>rotaryDisabled := 1, aFlag := 1\<rparr>) \<noteq> 0 \<and>
   PinA 0x0C (rotation_scenario\<lparr>rotaryDisabled := 1, aFlag := 1\<rparr>) =
     rotation_scenario\<lparr>rotaryDisabled := 1, aFlag := 1\<rparr> \<and>
   0 \<le> songIndex rotation_scenario \<and> songIndex rotation_scenario < SONG_COUNT \<and>
   (\<exists>st'. playSelectedSong rotation_scenario = Some st' \<and>
      rotaryCount st' = 0 \<and> rotaryChanged st' = 0) \<and>
   rotaryDisabled (rotation_scenario\<lparr>aFlag := 1\<rparr>) = 0 \<and>
   aFlag (rotation_scenario\<lparr>aFlag := 1\<rparr>) \<noteq> 0 \<and>
   rotaryCount (PinA 0x0C (rotation_scenario\<lparr>aFlag := 1\<rparr>)) = 1"
proof -
  have h: "rotaryDisabled (rotation_scenario\<lparr>rotaryDisabled := 1, aFlag := 1\<rparr>) \<noteq> 0"
    "0 \<le> songIndex rotation_scenario" "songIndex rotation_scenario < SONG_COUNT"
    "rotaryDisabled (rotation_scenario\<lparr>aFlag := 1\<rparr>) = 0"
    "aFlag (rotation_scenario\<lparr>aFlag := 1\<rparr>) \<noteq> 0"
    by (simp_all add: rotation_scenario_def reset_def)
  have v: "rotaryCount rotation_scenario = 0" "rotaryChanged rotation_scenario = 0"
    "rotaryCount (rotaryUp (rotation_scenario\<lparr>aFlag := 1\<rparr>)) = 1"
    by (simp_all add: rotation_scenario_def reset_def rotaryUp_def rotaryMax_def int16_def Let_def)
  from rotation_ignored_during_playback [of "rotation_scenario\<lparr>rotaryDisabled := 1, aFlag := 1\<rparr>" "0x0C"]
    rotation_ignored_during_playback [of rotation_scenario 0]
    rotation_ignored_during_playback [of "rotation_scenario\<lparr>aFlag := 1\<rparr>" 0] h v
  show ?thesis by auto
qed

text \<open>
  C4.  Cancelling in the middle of a pause.  The song is playing, the pause has
  \<open>dticks\<close> ticks, and the click is the button event number \<open>length pre + 1\<close>, with
  \<open>length pre < dticks\<close>, so it arrives inside the wait loop.  Then the wait loop ends
  with the tick whose \<open>btnRot.tick()\<close> saw the click, after \<open>length pre + 1\<close> ticks and
  not one more, with the playback flag cleared; from then on \<open>processSongData\<close> returns
  0 on every byte and leaves the state as it is (nothing sent, no wait), so the playback
  loop stops at the next byte it reads.
\<close>

theorem cancel_mid_pause:
  assumes "songPlaying st \<noteq> 0"
    and "delayTicks num16ths (tempo st) = Some dticks"
    and "buttons st = pre @ Click # rest" and "Click \<notin> set pre"
    and "int (length pre) < dticks"
  shows "\<exists>st'. pause num16ths st = Some st' \<and>
     trace st' = trace st @ replicate (Suc (length pre)) (Delay 20) \<and>
     songPlaying st' = 0 \<and> buttons st' = rest \<and>
     processSongData dataVal st' = Some (0, st') \<and>
     songLoop (dataVal # songDataPtr) st' = Some st' \<and>
     (0x01 \<le> num16ths \<and> num16ths \<le> 0x7F \<longrightarrow>
        processSongData num16ths st = Some (1, st') \<and>
        songLoop (num16ths # dataVal # songDataPtr) st = Some st')"
proof -
  define st' where "st' = pause_loop 0 dticks st"
  have p: "pause num16ths st = Some st'"
    using assms(2) by (simp add: pause_def st'_def)
  from pause_loop_cancel [of st pre rest dticks 0] assms
  have c: "trace st' = trace st @ replicate (Suc (length pre)) (Delay 20)"
    "songPlaying st' = 0" "buttons st' = rest"
    by (simp_all add: st'_def)
  have s: "processSongData b st' = Some (0, st')" for b
    using c(2) by (simp add: processSongData_stop)
  have l: "songLoop (b # bs) st' = Some st'" for b bs
    by (simp add: s)
  have n: "processSongData num16ths st = Some (1, st') \<and>
        songLoop (num16ths # dataVal # songDataPtr) st = Some st'"
    if "0x01 \<le> num16ths \<and> num16ths \<le> 0x7F"
  proof -
    from that have "\<not> is_end num16ths" "\<not> 0x80 \<le> num16ths"
      by (auto simp: is_end_def word_le_nat_alt word_less_nat_alt)
    with assms(1) p have "processSongData num16ths st = Some (1, st')"
      by (simp add: processSongData_pause)
    then show ?thesis by (simp add: s)
  qed
  from p c s l n show ?thesis by blast
qed

theorem cancel_mid_pause_witness:
  "songPlaying ((reset [NoEvent, Click, NoEvent] [])\<lparr>songPlaying := 1, tempo := 150\<rparr>) \<noteq> 0 \<and>
   delayTicks 4 (tempo ((reset [NoEvent, Click, NoEvent] [])\<lparr>songPlaying := 1, tempo := 150\<rparr>)) = Some 20 \<and>
   buttons ((reset [NoEvent, Click, NoEvent] [])\<lparr>songPlaying := 1, tempo := 150\<rparr>) =
     [NoEvent] @ Click # [NoEvent] \<and>
   Click \<notin> set [NoEvent] \<and> int (length [NoEvent]) < 20 \<and> (0x01 :: byte) \<le> 4 \<and> (4 :: byte) \<le> 0x7F \<and>
   (\<exists>st'. pause 4 ((reset [NoEvent, Click, NoEvent] [])\<lparr>songPlaying := 1, tempo := 150\<rparr>) = Some st' \<and>
      trace st' = [Delay 20, Delay 20] \<and> songPlaying st' = 0 \<and> buttons st' = [NoEvent] \<and>
      processSongData note_c st' = Some (0, st') \<and>
      songLoop [4, note_c, 4, 0] ((reset [NoEvent, Click, NoEvent] [])\<lparr>songPlaying := 1, tempo := 150\<rparr>) = Some st')"
proof -
  let ?st = "(reset [NoEvent, Click, NoEvent] [])\<lparr>songPlaying := 1, tempo := 150\<rparr>"
  have h: "songPlaying ?st \<noteq> 0" "delayTicks 4 (tempo ?st) = Some 20"
    "buttons ?st = [NoEvent] @ Click # [NoEvent]" "Click \<notin> set [NoEvent]"
    "int (length [NoEvent]) < 20"
    by (simp_all add: reset_def delayTicks_def ulong_def int16_def)
  have b: "(0x01 :: byte) \<le> 4" "(4 :: byte) \<le> 0x7F"
    by simp_all
  have t: "trace ?st = []"
    by (simp add: reset_def)
  from cancel_mid_pause [OF h, of note_c "[4, 0]"] b obtain st' where
    "pause 4 ?st = Some st'"
    "trace st' = trace ?st @ replicate (Suc (length [NoEvent])) (Delay 20)"
    "songPlaying st' = 0" "buttons st' = [NoEvent]"
    "processSongData note_c st' = Some (0, st')"
    "songLoop [4, note_c, 4, 0] ?st = Some st'"
    by blast
  then have "\<exists>st'. pause 4 ?st = Some st' \<and>
      trace st' = [Delay 20, Delay 20] \<and> songPlaying st' = 0 \<and> buttons st' = [NoEvent] \<and>
      processSongData note_c st' = Some (0, st') \<and>
      songLoop [4, note_c, 4, 0] ?st = Some st'"
    by (simp add: t)
  with h b show ?thesis by blast
qed

text \<open>
  C5.  The tick count of a pause is exactly \<open>duration * 120 * 125 / tempo / 20\<close> in
  integer arithmetic.  The sketch assigns \<open>tempo\<close> only from the catalog table, and for
  every tempo of the catalog and every byte \<open>delayTicks\<close> is that quotient; more
  generally it is the quotient for every positive tempo at which the quotient fits the
  \<open>int\<close> it is stored in, as it does for every pause byte from tempo 3 on.  For duration
  16 and tempo 150 the count is 80, and a pause during whose 80 ticks no click arrives
  waits 80 ticks of 20 time units, 1600 time units in all.
\<close>

theorem pause_delay_formula:
  "(t \<in> set songTempos \<longrightarrow>
      delayTicks num16ths t = Some (uint num16ths * 120 * 125 div t div 20)) \<and>
   (0 \<le> songIndex st \<and> songIndex st < SONG_COUNT \<longrightarrow>
      (\<exists>t'. pgm_read_word songTempos (songIndex st) = Some t' \<and> t' \<in> set songTempos)) \<and>
   (0 < t \<and> t \<le> 32767 \<and> uint num16ths * 120 * 125 div t div 20 \<le> 32767 \<longrightarrow>
      delayTicks num16ths t = Some (uint num16ths * 120 * 125 div t div 20)) \<and>
   (3 \<le> t \<and> t \<le> 32767 \<and> num16ths \<le> 0x7F \<longrightarrow>
      delayTicks num16ths t = Some (uint num16ths * 120 * 125 div t div 20)) \<and>
   delayTicks 16 150 = Some 80 \<and>
   (tempo st = 150 \<and> songPlaying st \<noteq> 0 \<and> Click \<notin> set (take 80 (buttons st)) \<longrightarrow>
      (\<exists>st'. pause 16 st = Some st' \<and> trace st' = trace st @ replicate 80 (Delay 20) \<and>
         waited (trace st') = waited (trace st) + 1600))"
proof -
  have a: "delayTicks num16ths t = Some (uint num16ths * 120 * 125 div t div 20)"
    if "0 < t \<and> t \<le> 32767 \<and> uint num16ths * 120 * 125 div t div 20 \<le> 32767"
    using that by (simp add: delayTicks_exact)
  have b: "delayTicks num16ths t = Some (uint num16ths * 120 * 125 div t div 20)"
    if "3 \<le> t \<and> t \<le> 32767 \<and> num16ths \<le> 0x7F"
    using that delayTicks_fits [of t num16ths] by (intro delayTicks_exact) simp_all
  have c: "delayTicks num16ths t = Some (uint num16ths * 120 * 125 div t div 20)"
    if "t \<in> set songTempos"
  proof -
    from that have r: "120 \<le> t" "t \<le> 200" using songTempos_range by blast+
    have "uint num16ths * 120 * 125 \<le> 3825000" using uint_byte_le [of num16ths] by simp
    then have "uint num16ths * 120 * 125 div t \<le> 3825000 div t"
      by (rule zdiv_mono1) (use r in simp)
    also have "\<dots> \<le> 3825000 div 120" by (rule zdiv_mono2) (use r in simp_all)
    finally have "uint num16ths * 120 * 125 div t \<le> 31875" by simp
    then have "uint num16ths * 120 * 125 div t div 20 \<le> 31875 div 20" by (rule zdiv_mono1) simp
    then have "uint num16ths * 120 * 125 div t div 20 \<le> 32767" by simp
    with r show ?thesis by (intro delayTicks_exact) simp_all
  qed
  have d: "delayTicks 16 150 = Some 80"
    by (simp add: delayTicks_def ulong_def int16_def)
  have e: "\<exists>st'. pause 16 st = Some st' \<and> trace st' = trace st @ replicate 80 (Delay 20) \<and>
         waited (trace st') = waited (trace st) + 1600"
    if h: "tempo st = 150 \<and> songPlaying st \<noteq> 0 \<and> Click \<notin> set (take 80 (buttons st))"
  proof -
    from h d have "delayTicks 16 (tempo st) = Some 80" by simp
    from pause_quiet [OF _ this] h obtain st' where
      p: "pause 16 st = Some st'" and t: "trace st' = trace st @ replicate 80 (Delay 20)"
      by auto
    from t have "waited (trace st') = waited (trace st) + 1600"
      by (simp add: waited_append_delays)
    with p t show ?thesis by blast
  qed
  have f: "\<exists>t'. pgm_read_word songTempos (songIndex st) = Some t' \<and> t' \<in> set songTempos"
    if "0 \<le> songIndex st \<and> songIndex st < SONG_COUNT"
    using that pgm_read_word_in [of "songIndex st" songTempos] by simp
  from a b c d e f show ?thesis by blast
qed

theorem pause_delay_formula_witness:
  "(150 :: int) \<in> set songTempos \<and> uint (16 :: byte) * 120 * 125 div 150 div 20 = 80 \<and>
   delayTicks 16 150 = Some 80 \<and> (120 :: int) \<in> set songTempos \<and> delayTicks 0xFF 120 = Some 1593 \<and>
   tempo ((reset (replicate 80 NoEvent @ [Click]) [])\<lparr>songPlaying := 1, tempo := 150\<rparr>) = 150 \<and>
   songPlaying ((reset (replicate 80 NoEvent @ [Click]) [])\<lparr>songPlaying := 1, tempo := 150\<rparr>) \<noteq> 0 \<and>
   Click \<notin> set (take 80 (buttons ((reset (replicate 80 NoEvent @ [Click]) [])\<lparr>songPlaying := 1, tempo := 150\<rparr>))) \<and>
   (\<exists>st'. pause 16 ((reset (replicate 80 NoEvent @ [Click]) [])\<lparr>songPlaying := 1, tempo := 150\<rparr>) = Some st' \<and>
      trace st' = replicate 80 (Delay 20) \<and> waited (trace st') = 1600)"
proof -
  let ?st = "(reset (replicate 80 NoEvent @ [Click]) [])\<lparr>songPlaying := 1, tempo := 150\<rparr>"
  have h: "tempo ?st = 150" "songPlaying ?st \<noteq> 0" "Click \<notin> set (take 80 (buttons ?st))"
    "trace ?st = []"
    by (simp_all add: reset_def)
  have m: "(120 :: int) \<in> set songTempos" "(150 :: int) \<in> set songTempos"
    by (simp_all add: songTempos_def)
  from pause_delay_formula [of 120 "0xFF" ?st] m
  have x: "delayTicks 0xFF 120 = Some 1593"
    by simp
  from pause_delay_formula [of 150 16 ?st] h
  have y: "\<exists>st'. pause 16 ?st = Some st' \<and> trace st' = replicate 80 (Delay 20) \<and>
      waited (trace st') = 1600"
    by simp
  from pause_delay_formula [of 150 16 ?st] m
  have z: "delayTicks 16 150 = Some 80"
    by simp
  from h m x y z show ?thesis by simp
qed

text \<open>
  C8.  The selection index stays in the range 0 to catalog size - 1 and is clamped, not
  wrapped: from an index in the range, \<open>rotaryUp\<close> gives \<open>min (selection + 1) 11\<close> and
  \<open>rotaryDown\<close> gives \<open>max (selection - 1) 0\<close>, both again in the range, and so do the
  interrupt handlers that call them; at the last index an increment stays at the last
  index, at 0 a decrement stays at 0.  After reset and initialisation the index is in the
  range after any number of rounds of the main loop, whatever the buttons and the
  encoder do.
\<close>

theorem selection_clamped:
  "(selection_ok st \<longrightarrow>
      rotaryCount (rotaryUp st) = min (rotaryCount st + 1) (SONG_COUNT - 1) \<and>
      rotaryCount (rotaryDown st) = max (rotaryCount st - 1) 0 \<and>
      selection_ok (rotaryUp st) \<and> selection_ok (rotaryDown st) \<and>
      selection_ok (PinA PIND st) \<and> selection_ok (PinB PIND st)) \<and>
   (rotaryCount st = SONG_COUNT - 1 \<longrightarrow> rotaryCount (rotaryUp st) = SONG_COUNT - 1) \<and>
   (rotaryCount st = 0 \<longrightarrow> rotaryCount (rotaryDown st) = 0) \<and>
   (\<exists>st'. run n (setup_sketch (reset bs qs)) = Some st' \<and>
      0 \<le> rotaryCount st' \<and> rotaryCount st' \<le> SONG_COUNT - 1)"
proof -
  have a: "rotaryCount (rotaryUp st) = min (rotaryCount st + 1) (SONG_COUNT - 1) \<and>
      rotaryCount (rotaryDown st) = max (rotaryCount st - 1) 0 \<and>
      selection_ok (rotaryUp st) \<and> selection_ok (rotaryDown st) \<and>
      selection_ok (PinA PIND st) \<and> selection_ok (PinB PIND st)"
    if s: "selection_ok st"
  proof -
    from s have "rotaryCount (rotaryUp st) = min (rotaryCount st + 1) (SONG_COUNT - 1)"
      "rotaryCount (rotaryDown st) = max (rotaryCount st - 1) 0"
      by (simp_all add: selection_ok_def rotaryUp_count rotaryDown_count rotaryMax_def int16_id)
    moreover from s isr_selection_ok [of st "IrqPinA PIND"] isr_selection_ok [of st "IrqPinB PIND"]
    have "selection_ok (PinA PIND st)" "selection_ok (PinB PIND st)"
      by simp_all
    ultimately show ?thesis
      using s by (simp add: rotaryUp_selection_ok rotaryDown_selection_ok)
  qed
  have b: "rotaryCount (rotaryUp st) = SONG_COUNT - 1" if "rotaryCount st = SONG_COUNT - 1"
    using that by (simp add: rotaryUp_count rotaryMax_def int16_id)
  have c: "rotaryCount (rotaryDown st) = 0" if "rotaryCount st = 0"
    using that by (simp add: rotaryDown_count int16_def)
  from sketch_ok_run [OF sketch_ok_setup, of n bs qs]
  have d: "\<exists>st'. run n (setup_sketch (reset bs qs)) = Some st' \<and>
      0 \<le> rotaryCount st' \<and> rotaryCount st' \<le> SONG_COUNT - 1"
    by (auto simp: sketch_ok_def selection_ok_def)
  from a b c d show ?thesis by blast
qed

theorem selection_clamped_witness:
  "selection_ok ((reset [] [])\<lparr>rotaryCount := 11\<rparr>) \<and>
   rotaryCount (rotaryUp ((reset [] [])\<lparr>rotaryCount := 11\<rparr>)) = 11 \<and>
   rotaryCount (rotaryDown ((reset [] [])\<lparr>rotaryCount := 11\<rparr>)) = 10 \<and>
   selection_ok (reset [] []) \<and>
   rotaryCount (rotaryUp (reset [] [])) = 1 \<and>
   rotaryCount (rotaryDown (reset [] [])) = 0"
proof -
  have s: "selection_ok ((reset [] [])\<lparr>rotaryCount := 11\<rparr>)" "selection_ok (reset [] [])"
    by (simp_all add: selection_ok_def reset_def)
  have r: "rotaryCount ((reset [] [])\<lparr>rotaryCount := 11\<rparr>) = 11" "rotaryCount (reset [] []) = 0"
    by (simp_all add: reset_def)
  from selection_clamped [of "(reset [] [])\<lparr>rotaryCount := 11\<rparr>" 0 0 "[]" "[]"]
    selection_clamped [of "reset [] []" 0 0 "[]" "[]"] s
  show ?thesis
    by (simp add: r)
qed

text \<open>
  C10.  Every command on the serial line has the address 0 and a mask with exactly one
  bit set.  After any number of rounds of the main loop, whatever the inputs, the serial
  output is a sequence of playbacks, each the commands of some note codes followed by a
  line break; the command of a note code is the frame for address 0 and the mask
  \<open>1 << ch\<close> with \<open>ch\<close> between 0 and 7, whose only set bit is bit \<open>ch\<close>; and
  \<open>playNote\<close>, the only caller of \<open>sendMotorShieldCommand\<close>, either sends nothing or
  one such command.
\<close>

theorem commands_one_hot:
  "(\<exists>st' plays. run n (setup_sketch (reset bs qs)) = Some st' \<and>
      (\<forall>ns \<in> set plays. set ns \<subseteq> set note_codes) \<and>
      serial_of (trace st') = concat (map playback_out plays)) \<and>
   playback_out ns = concat (map note_cmd ns) @ [SerialPrintln ''''] \<and>
   (code \<in> set note_codes \<longrightarrow>
      (\<exists>ch. ch \<le> 7 \<and> noteToMotorShieldChannel code = of_nat ch \<and>
         note_cmd code = cmd_frame 0 (push_bit ch 1) \<and>
         (\<forall>i. bit (push_bit ch 1 :: byte) i \<longleftrightarrow> i = ch))) \<and>
   (playNote dataVal st = st \<or>
      (\<exists>ch \<le> 7. playNote dataVal st = sendMotorShieldCommand 0 (push_bit ch 1) st)) \<and>
   slaveAddr = 0 \<and>
   trace (sendMotorShieldCommand 0 pdata st) = trace st @
     [SerialPrint ''<'', SerialPrint ''0'', SerialPrintHex 0] @
     (if pdata < 0x10 then [SerialPrint ''0''] else []) @
     [SerialPrintHex pdata, SerialPrint ''>'']"
proof -
  from sketch_ok_run [OF sketch_ok_setup, of n bs qs]
  have a: "\<exists>st' plays. run n (setup_sketch (reset bs qs)) = Some st' \<and>
      (\<forall>ns \<in> set plays. set ns \<subseteq> set note_codes) \<and>
      serial_of (trace st') = concat (map playback_out plays)"
    unfolding sketch_ok_def serial_history_def by blast
  have b: "\<exists>ch. ch \<le> 7 \<and> noteToMotorShieldChannel code = of_nat ch \<and>
         note_cmd code = cmd_frame 0 (push_bit ch 1) \<and>
         (\<forall>i. bit (push_bit ch 1 :: byte) i \<longleftrightarrow> i = ch)"
    if "code \<in> set note_codes"
    using that by (rule note_cmd_one_hot)
  have c: "trace (sendMotorShieldCommand 0 pdata st) = trace st @
     [SerialPrint ''<'', SerialPrint ''0'', SerialPrintHex 0] @
     (if pdata < 0x10 then [SerialPrint ''0''] else []) @
     [SerialPrintHex pdata, SerialPrint ''>'']"
    by (simp add: sendMotorShieldCommand_emit cmd_frame_def)
  from a b c playNote_sends [of dataVal st] show ?thesis
    by (simp add: playback_out_def slaveAddr_def)
qed

theorem commands_one_hot_witness:
  "note_e \<in> set note_codes \<and>
   (\<exists>ch. ch \<le> 7 \<and> noteToMotorShieldChannel note_e = of_nat ch \<and>
      note_cmd note_e = cmd_frame 0 (push_bit ch 1) \<and>
      (\<forall>i. bit (push_bit ch 1 :: byte) i \<longleftrightarrow> i = ch)) \<and>
   (\<exists>st' plays. run 2 (setup_sketch (reset [Click, NoEvent, Click] [])) = Some st' \<and>
      (\<forall>ns \<in> set plays. set ns \<subseteq> set note_codes) \<and>
      serial_of (trace st') = concat (map playback_out plays))"
proof -
  have m: "note_e \<in> set note_codes"
    by (simp add: note_codes_def)
  from commands_one_hot [of 2 "[Click, NoEvent, Click]" "[]" "[]" note_e 0 "reset [] []" 0] m
  show ?thesis by simp
qed

end
